theory Spec2Isabelle
  imports Main "HOL-Library.Product_Lexorder" "HOL-Library.Monad_Syntax" "HOL-Library.Multiset"
begin

section \<open>Slack channel archive tool: the eligibility filter and the batch operator\<close>

text \<open>
  A shallow embedding of \<^verbatim>\<open>src/slack_archive.py\<close>. Strings are byte strings; the model
  of the Python string operations is exact on ASCII text. Exceptions are values of
  \<open>py_exn\<close>, a raising computation has a result of type \<open>py_exn + 'a\<close>.
\<close>

subsection \<open>Python values used by the filter\<close>

datatype py_exn = ValueError | KeyError | AttributeError

definition bind :: "py_exn + 'a \<Rightarrow> ('a \<Rightarrow> py_exn + 'b) \<Rightarrow> py_exn + 'b" where
  "bind m f = (case m of Inl e \<Rightarrow> Inl e | Inr x \<Rightarrow> f x)"

text \<open>
  A row of \<^verbatim>\<open>csv.DictReader\<close>: a dict whose keys are the header's column names. A key
  that the header does not have is absent (\<open>None\<close>); the cell of a row that is shorter
  than the header is Python's \<^verbatim>\<open>None\<close> (\<open>Some None\<close>); any other cell is a string.
\<close>

type_synonym row = "string \<rightharpoonup> string option"

text \<open>\<^verbatim>\<open>row[key]\<close> raises KeyError for an absent key.\<close>

definition getitem :: "row \<Rightarrow> string \<Rightarrow> py_exn + string option" where
  "getitem r k = (case r k of None \<Rightarrow> Inl KeyError | Some v \<Rightarrow> Inr v)"

text \<open>\<^verbatim>\<open>row.get(key, '')\<close> gives the default for an absent key only.\<close>

definition dict_get :: "row \<Rightarrow> string \<Rightarrow> string option" where
  "dict_get r k = (case r k of None \<Rightarrow> Some [] | Some v \<Rightarrow> v)"

definition lower_char :: "char \<Rightarrow> char" where
  "lower_char c = (let n = (of_char c :: nat) in
     if 65 \<le> n \<and> n \<le> 90 then char_of (n + 32) else c)"

definition lower :: "string \<Rightarrow> string" where
  "lower s = map lower_char s"

text \<open>A method call on \<^verbatim>\<open>None\<close> raises AttributeError.\<close>

definition str_lower :: "string option \<Rightarrow> py_exn + string" where
  "str_lower v = (case v of None \<Rightarrow> Inl AttributeError | Some s \<Rightarrow> Inr (lower s))"

subsubsection \<open>\<^verbatim>\<open>int(str)\<close>\<close>

definition is_digit :: "char \<Rightarrow> bool" where
  "is_digit c = (48 \<le> (of_char c :: nat) \<and> (of_char c :: nat) \<le> 57)"

definition digit_val :: "char \<Rightarrow> nat" where
  "digit_val c = (of_char c :: nat) - 48"

text \<open>The whitespace that \<^verbatim>\<open>int\<close> strips from an ASCII string: tab to carriage return, and space.\<close>

definition is_c_space :: "char \<Rightarrow> bool" where
  "is_c_space c = (let n = (of_char c :: nat) in (9 \<le> n \<and> n \<le> 13) \<or> n = 32)"

definition strip_c :: "string \<Rightarrow> string" where
  "strip_c s = rev (dropWhile is_c_space (rev (dropWhile is_c_space s)))"

text \<open>Decimal digits, where a single underscore may stand between two digits.\<close>

fun parse_digits :: "string \<Rightarrow> nat \<Rightarrow> nat option" where
  "parse_digits [] acc = Some acc"
| "parse_digits (c # cs) acc =
     (if is_digit c then parse_digits cs (10 * acc + digit_val c)
      else if c = CHR ''_'' \<and> cs \<noteq> [] \<and> is_digit (hd cs) then parse_digits cs acc
      else None)"

definition parse_decimal :: "string \<Rightarrow> nat option" where
  "parse_decimal s = (case s of [] \<Rightarrow> None
     | c # cs \<Rightarrow> if is_digit c then parse_digits (c # cs) 0 else None)"

definition py_int :: "string \<Rightarrow> py_exn + int" where
  "py_int s = (case strip_c s of
       [] \<Rightarrow> Inl ValueError
     | c # cs \<Rightarrow>
         (case (if c = CHR ''-'' \<or> c = CHR ''+'' then parse_decimal cs else parse_decimal (c # cs)) of
            None \<Rightarrow> Inl ValueError
          | Some n \<Rightarrow> Inr (if c = CHR ''-'' then - int n else int n)))"

subsubsection \<open>\<^verbatim>\<open>datetime\<close>\<close>

record datetime =
  year :: int
  month :: int
  day :: int
  hour :: int
  minute :: int
  second :: int
  microsecond :: int

definition mk_datetime :: "int \<Rightarrow> int \<Rightarrow> int \<Rightarrow> int \<Rightarrow> int \<Rightarrow> int \<Rightarrow> datetime" where
  "mk_datetime y m d H M S =
     \<lparr>year = y, month = m, day = d, hour = H, minute = M, second = S, microsecond = 0\<rparr>"

text \<open>Comparison of two naive datetimes is the comparison of their field tuples.\<close>

definition dt_key :: "datetime \<Rightarrow> int \<times> int \<times> int \<times> int \<times> int \<times> int \<times> int" where
  "dt_key t = (year t, month t, day t, hour t, minute t, second t, microsecond t)"

definition dt_ge :: "datetime \<Rightarrow> datetime \<Rightarrow> bool" where
  "dt_ge a b = (dt_key b \<le> dt_key a)"

definition dt_lt :: "datetime \<Rightarrow> datetime \<Rightarrow> bool" where
  "dt_lt a b = (dt_key a < dt_key b)"

definition is_leap :: "int \<Rightarrow> bool" where
  "is_leap y = (y mod 4 = 0 \<and> (y mod 100 \<noteq> 0 \<or> y mod 400 = 0))"

definition days_in_month :: "int \<Rightarrow> int \<Rightarrow> int" where
  "days_in_month y m =
     (if m = 2 then (if is_leap y then 29 else 28)
      else if m = 4 \<or> m = 6 \<or> m = 9 \<or> m = 11 then 30 else 31)"

definition days_before_year :: "int \<Rightarrow> int" where
  "days_before_year y = (let p = y - 1 in p * 365 + p div 4 - p div 100 + p div 400)"

definition days_before_month :: "int \<Rightarrow> int \<Rightarrow> int" where
  "days_before_month y m =
     [0, 31, 59, 90, 120, 151, 181, 212, 243, 273, 304, 334] ! nat (m - 1)
     + (if m > 2 \<and> is_leap y then 1 else 0)"

definition toordinal :: "datetime \<Rightarrow> int" where
  "toordinal t = days_before_year (year t) + days_before_month (year t) (month t) + day t"

text \<open>
  \<^verbatim>\<open>(a - b).days\<close>: the difference is a timedelta normalised so that its seconds and
  microseconds are not negative, hence its days are the floor of the difference.
\<close>

definition total_us :: "datetime \<Rightarrow> int" where
  "total_us t = ((toordinal t * 86400) + hour t * 3600 + minute t * 60 + second t) * 1000000
     + microsecond t"

definition sub_days :: "datetime \<Rightarrow> datetime \<Rightarrow> int" where
  "sub_days a b = (total_us a - total_us b) div 86400000000"

subsubsection \<open>\<^verbatim>\<open>datetime.strptime(s, '%a, %d %b %Y %H:%M:%S')\<close>\<close>

text \<open>
  The format is compiled to a regular expression matched without regard to case: a
  weekday name, a comma, white space, a day of one or two digits, a month name, a year of
  four digits, and hour, minute and second of one or two digits each, separated by colons;
  white space in the format stands for any non-empty run of white space. The whole string
  has to be consumed. The weekday is not compared with the date. The date then has to
  exist (year from 1, day within the month, second below 60). Every failure is a
  ValueError.
\<close>

definition is_re_space :: "char \<Rightarrow> bool" where
  "is_re_space c = (let n = (of_char c :: nat) in (9 \<le> n \<and> n \<le> 13) \<or> (28 \<le> n \<and> n \<le> 32))"

definition skip_spaces :: "string \<Rightarrow> string option" where
  "skip_spaces s = (case s of [] \<Rightarrow> None
     | c # cs \<Rightarrow> if is_re_space c then Some (dropWhile is_re_space cs) else None)"

definition digits_value :: "string \<Rightarrow> int" where
  "digits_value ds = int (foldl (\<lambda>a c. 10 * a + digit_val c) 0 ds)"

text \<open>A run of digits of \<open>lo\<close> to \<open>hi\<close> characters that no further digit follows.\<close>

definition take_number :: "nat \<Rightarrow> nat \<Rightarrow> string \<Rightarrow> (int \<times> string) option" where
  "take_number lo hi s = (let ds = takeWhile is_digit s in
     if lo \<le> length ds \<and> length ds \<le> hi then Some (digits_value ds, dropWhile is_digit s)
     else None)"

fun index_of :: "'a \<Rightarrow> 'a list \<Rightarrow> nat option" where
  "index_of x [] = None"
| "index_of x (y # ys) = (if x = y then Some 0 else map_option Suc (index_of x ys))"

definition take_name :: "string list \<Rightarrow> string \<Rightarrow> (nat \<times> string) option" where
  "take_name names s = (if length s < 3 then None
     else map_option (\<lambda>i. (i, drop 3 s)) (index_of (lower (take 3 s)) names))"

definition weekday_names :: "string list" where
  "weekday_names = [''mon'', ''tue'', ''wed'', ''thu'', ''fri'', ''sat'', ''sun'']"

definition month_names :: "string list" where
  "month_names = [''jan'', ''feb'', ''mar'', ''apr'', ''may'', ''jun'',
                  ''jul'', ''aug'', ''sep'', ''oct'', ''nov'', ''dec'']"

definition expect :: "char \<Rightarrow> string \<Rightarrow> string option" where
  "expect c s = (case s of [] \<Rightarrow> None | x # xs \<Rightarrow> if x = c then Some xs else None)"

definition match_format :: "string \<Rightarrow> datetime option" where
  "match_format s = do {
     (wd, s1) \<leftarrow> take_name weekday_names s;
     s2 \<leftarrow> expect CHR '','' s1;
     s3 \<leftarrow> skip_spaces s2;
     (d, s4) \<leftarrow> take_number 1 2 s3;
     s5 \<leftarrow> skip_spaces s4;
     (m, s6) \<leftarrow> take_name month_names s5;
     s7 \<leftarrow> skip_spaces s6;
     (y, s8) \<leftarrow> take_number 4 4 s7;
     s9 \<leftarrow> skip_spaces s8;
     (H, s10) \<leftarrow> take_number 1 2 s9;
     s11 \<leftarrow> expect CHR '':'' s10;
     (M, s12) \<leftarrow> take_number 1 2 s11;
     s13 \<leftarrow> expect CHR '':'' s12;
     (S, s14) \<leftarrow> take_number 1 2 s13;
     if s14 = [] \<and> 1 \<le> d \<and> d \<le> 31 \<and> H \<le> 23 \<and> M \<le> 59 \<and> S \<le> 59
        \<and> 1 \<le> y \<and> d \<le> days_in_month y (int m + 1)
     then Some (mk_datetime y (int m + 1) d H M S) else None
   }"

definition strptime :: "string \<Rightarrow> py_exn + datetime" where
  "strptime s = (case match_format s of None \<Rightarrow> Inl ValueError | Some t \<Rightarrow> Inr t)"

text \<open>\<^verbatim>\<open>s.split(sep)[0]\<close>: the part of \<open>s\<close> before the first occurrence of \<open>sep\<close>.\<close>

fun before_sep :: "string \<Rightarrow> string \<Rightarrow> string" where
  "before_sep sep [] = []"
| "before_sep sep (c # cs) =
     (if take (length sep) (c # cs) = sep then [] else c # before_sep sep cs)"

definition split_first :: "string option \<Rightarrow> string \<Rightarrow> py_exn + string" where
  "split_first v sep = (case v of None \<Rightarrow> Inl AttributeError | Some s \<Rightarrow> Inr (before_sep sep s))"

subsection \<open>The eligibility filter: \<^verbatim>\<open>load_channels_from_csv\<close>\<close>

record channel =
  name :: string
  id' :: "string option"
  members :: int
  last_activity :: datetime
  days_inactive :: int

record load_stats =
  total :: int
  skipped_private :: int
  skipped_archived :: int
  skipped_protected :: int
  skipped_members :: int
  skipped_active :: int
  parse_errors :: int

record load_state =
  stats :: load_stats
  channels :: "channel list"

definition july_2_2025 :: datetime where
  "july_2_2025 = mk_datetime 2025 7 2 0 0 0"

definition protected_channels :: "string set" where
  "protected_channels = {''general'', ''random'', ''announcements'', ''compliance'', ''team-tech'',
     ''fetch'', ''collective-leads'', ''team-marketing'', ''team-devops''}"

definition init_load :: load_state where
  "init_load = \<lparr>stats = \<lparr>total = 0, skipped_private = 0, skipped_archived = 0,
       skipped_protected = 0, skipped_members = 0, skipped_active = 0, parse_errors = 0\<rparr>,
     channels = []\<rparr>"

text \<open>\<^verbatim>\<open>int(row['Members']) if row['Members'] else 0\<close>: \<^verbatim>\<open>None\<close> and the empty string are false.\<close>

definition parse_members :: "string option \<Rightarrow> py_exn + int" where
  "parse_members v = (case v of None \<Rightarrow> Inr 0 | Some s \<Rightarrow> if s = [] then Inr 0 else py_int s)"

text \<open>
  The body of the inner \<^verbatim>\<open>try\<close> (lines 64 to 106). \<^verbatim>\<open>datetime.now()\<close> is read once for
  each row that is appended, so the clock is a function of the number of readings taken
  before, which is the number of channels appended so far.
\<close>

definition row_body :: "(nat \<Rightarrow> datetime) \<Rightarrow> row \<Rightarrow> load_state \<Rightarrow> py_exn + load_state" where
  "row_body clock r st =
     bind (getitem r ''Name'') (\<lambda>name.
     bind (bind (getitem r ''Members'') parse_members) (\<lambda>members.
     bind (getitem r ''Last activity'') (\<lambda>last_activity_str.
     bind (str_lower (dict_get r ''Private'')) (\<lambda>private.
     bind (str_lower (dict_get r ''Archived'')) (\<lambda>archived.
     let is_private = (private = ''true'');
         is_archived = (archived = ''true'');
         channel_id = dict_get r ''ID''
     in
     if is_private then
       Inr (st\<lparr>stats := (stats st)\<lparr>skipped_private := skipped_private (stats st) + 1\<rparr>\<rparr>)
     else if is_archived then
       Inr (st\<lparr>stats := (stats st)\<lparr>skipped_archived := skipped_archived (stats st) + 1\<rparr>\<rparr>)
     else
     bind (str_lower name) (\<lambda>lname.
     if lname \<in> protected_channels then
       Inr (st\<lparr>stats := (stats st)\<lparr>skipped_protected := skipped_protected (stats st) + 1\<rparr>\<rparr>)
     else if members > 4 then
       Inr (st\<lparr>stats := (stats st)\<lparr>skipped_members := skipped_members (stats st) + 1\<rparr>\<rparr>)
     else
     bind (bind (split_first last_activity_str '' -'') strptime) (\<lambda>last_activity.
     if dt_ge last_activity july_2_2025 then
       Inr (st\<lparr>stats := (stats st)\<lparr>skipped_active := skipped_active (stats st) + 1\<rparr>\<rparr>)
     else
       Inr (st\<lparr>channels := channels st @
              [\<lparr>name = the name, id' = channel_id, members = members,
                last_activity = last_activity,
                days_inactive = sub_days (clock (length (channels st))) last_activity\<rparr>]\<rparr>))))))))"

text \<open>
  One iteration of the loop over the rows (lines 60 to 111): the row is counted, and a
  ValueError or KeyError of the body is counted as a parse error. Any other exception
  leaves the loop.
\<close>

definition row_step :: "(nat \<Rightarrow> datetime) \<Rightarrow> row \<Rightarrow> load_state \<Rightarrow> py_exn + load_state" where
  "row_step clock r st =
     (let st1 = st\<lparr>stats := (stats st)\<lparr>total := total (stats st) + 1\<rparr>\<rparr> in
      case row_body clock r st1 of
        Inr st2 \<Rightarrow> Inr st2
      | Inl ValueError \<Rightarrow> Inr (st1\<lparr>stats := (stats st1)\<lparr>parse_errors := parse_errors (stats st1) + 1\<rparr>\<rparr>)
      | Inl KeyError \<Rightarrow> Inr (st1\<lparr>stats := (stats st1)\<lparr>parse_errors := parse_errors (stats st1) + 1\<rparr>\<rparr>)
      | Inl e \<Rightarrow> Inl e)"

fun load_rows :: "(nat \<Rightarrow> datetime) \<Rightarrow> row list \<Rightarrow> load_state \<Rightarrow> py_exn + load_state" where
  "load_rows clock [] st = Inr st"
| "load_rows clock (r # rs) st =
     (case row_step clock r st of Inl e \<Rightarrow> Inl e | Inr st' \<Rightarrow> load_rows clock rs st')"

text \<open>
  The file: it does not exist, or reading it fails (at opening or while the rows are
  read), or it yields its rows.
\<close>

datatype csv_file = FileNotFound | ReadFailure | Csv "row list"

text \<open>\<^verbatim>\<open>channels.sort(key=lambda x: (x['members'], -x['days_inactive']))\<close>, a stable sort.\<close>

definition sort_key_of :: "channel \<Rightarrow> int \<times> int" where
  "sort_key_of x = (members x, - days_inactive x)"

definition load_channels_from_csv :: "(nat \<Rightarrow> datetime) \<Rightarrow> csv_file \<Rightarrow> channel list" where
  "load_channels_from_csv clock f = (case f of
       FileNotFound \<Rightarrow> []
     | ReadFailure \<Rightarrow> []
     | Csv rows \<Rightarrow> (case load_rows clock rows init_load of
           Inl e \<Rightarrow> []
         | Inr st \<Rightarrow> sort_key sort_key_of (channels st)))"

text \<open>The statistics that line 122 logs; nothing is logged when the pass is left early.\<close>

definition logged_stats :: "(nat \<Rightarrow> datetime) \<Rightarrow> csv_file \<Rightarrow> load_stats option" where
  "logged_stats clock f = (case f of
       Csv rows \<Rightarrow> (case load_rows clock rows init_load of Inl e \<Rightarrow> None | Inr st \<Rightarrow> Some (stats st))
     | _ \<Rightarrow> None)"

subsection \<open>The archive action: \<^verbatim>\<open>archive_channels\<close>\<close>

text \<open>
  A call of the remote client returns, or raises \<^verbatim>\<open>SlackApiError\<close>, or raises some other
  exception. What a \<^verbatim>\<open>SlackApiError\<close> carries is what becomes of reading its error code
  at line 239, \<^verbatim>\<open>e.response['error']\<close>: the error code, taken by its text, or the
  exception that the subscript raises (KeyError when the response is a dict with no such
  entry).
\<close>

datatype 'a outcome = Returns 'a | SlackApiError "py_exn + string" | OtherException

text \<open>
  The \<^verbatim>\<open>'channel'\<close> entry of the answer of \<^verbatim>\<open>conversations_info\<close>; a key that the
  answer does not have is \<open>None\<close>.
\<close>

record channel_state =
  is_archived :: "bool option"
  num_members :: "int option"

type_synonym info_response = "channel_state option"

text \<open>The calls made to the client so far, each with its argument and what came of it.\<close>

datatype event =
  InfoCall "string option" "info_response outcome"
| ArchiveCall "string option" "unit outcome"

text \<open>The client may answer a call according to everything it was asked before.\<close>

record client =
  conversations_info :: "event list \<Rightarrow> string option \<Rightarrow> info_response outcome"
  conversations_archive :: "event list \<Rightarrow> string option \<Rightarrow> unit outcome"

record archive_stats =
  processed :: int
  successful :: int
  failed :: int
  skipped :: int

datatype level = INFO | WARNING | ERROR

record archive_state =
  astats :: archive_stats
  calls :: "event list"
  log :: "(level \<times> string) list"

fun str_nat :: "nat \<Rightarrow> string" where
  "str_nat n = (if n < 10 then [char_of (48 + n)] else str_nat (n div 10) @ [char_of (48 + n mod 10)])"

declare str_nat.simps [simp del]

definition str_int :: "int \<Rightarrow> string" where
  "str_int i = (if i < 0 then CHR ''-'' # str_nat (nat (- i)) else str_nat (nat i))"

definition str_opt :: "string option \<Rightarrow> string" where
  "str_opt v = (case v of None \<Rightarrow> ''None'' | Some s \<Rightarrow> s)"

definition channel_desc :: "channel \<Rightarrow> string" where
  "channel_desc ch = ''#'' @ name ch @ '' ('' @ str_opt (id' ch) @ '')''"

definition add_log :: "level \<Rightarrow> string \<Rightarrow> archive_state \<Rightarrow> archive_state" where
  "add_log l m st = st\<lparr>log := log st @ [(l, m)]\<rparr>"

datatype raised = ApiError "py_exn + string" | Unexpected

text \<open>
  The body of the \<^verbatim>\<open>try\<close> (lines 215 to 236): the state it has reached, and the exception
  it raised if it did. Reading a key that the answer does not have is a KeyError, an
  exception other than \<^verbatim>\<open>SlackApiError\<close>.
\<close>

definition try_body :: "client \<Rightarrow> bool \<Rightarrow> channel \<Rightarrow> archive_state \<Rightarrow> raised option \<times> archive_state" where
  "try_body cl dry_run ch st =
     (let info = conversations_info cl (calls st) (id' ch);
          st1 = st\<lparr>calls := calls st @ [InfoCall (id' ch) info]\<rparr>
      in case info of
        SlackApiError code \<Rightarrow> (Some (ApiError code), st1)
      | OtherException \<Rightarrow> (Some Unexpected, st1)
      | Returns None \<Rightarrow> (Some Unexpected, st1)
      | Returns (Some current_state) \<Rightarrow>
          (case is_archived current_state of
             None \<Rightarrow> (Some Unexpected, st1)
           | Some True \<Rightarrow>
               (None, add_log INFO (channel_desc ch @ '': Already archived, skipping'')
                        (st1\<lparr>astats := (astats st1)\<lparr>skipped := skipped (astats st1) + 1\<rparr>\<rparr>))
           | Some False \<Rightarrow>
               (let current_members = (case num_members current_state of None \<Rightarrow> 0 | Some n \<Rightarrow> n);
                    st2 = (if current_members \<noteq> members ch
                           then add_log WARNING (channel_desc ch @ '': Member count changed from ''
                                  @ str_int (members ch) @ '' to '' @ str_int current_members) st1
                           else st1)
                in if dry_run then
                     (None, (add_log INFO (''[DRY RUN] Would archive: '' @ channel_desc ch) st2)
                        \<lparr>astats := (astats st2)\<lparr>successful := successful (astats st2) + 1\<rparr>\<rparr>)
                   else
                     (let res = conversations_archive cl (calls st2) (id' ch);
                          st3 = st2\<lparr>calls := calls st2 @ [ArchiveCall (id' ch) res]\<rparr>
                      in case res of
                        Returns u \<Rightarrow>
                          (None, (add_log INFO (''Successfully archived: '' @ channel_desc ch) st3)
                             \<lparr>astats := (astats st3)\<lparr>successful := successful (astats st3) + 1\<rparr>\<rparr>)
                      | SlackApiError code \<Rightarrow> (Some (ApiError code), st3)
                      | OtherException \<Rightarrow> (Some Unexpected, st3)))))"

text \<open>
  The handler of \<^verbatim>\<open>SlackApiError\<close> from line 240 on, once line 239 has read the error
  code.
\<close>

definition on_api_error :: "string \<Rightarrow> channel \<Rightarrow> archive_state \<Rightarrow> archive_state" where
  "on_api_error error_code ch st =
     (let st1 = st\<lparr>astats := (astats st)\<lparr>failed := failed (astats st) + 1\<rparr>\<rparr> in
      if error_code = ''channel_not_found'' then
        add_log WARNING (channel_desc ch @ '': Channel not found'') st1
      else if error_code = ''already_archived'' then
        (let st2 = st1\<lparr>astats := (astats st1)\<lparr>skipped := skipped (astats st1) + 1\<rparr>\<rparr>;
             st3 = st2\<lparr>astats := (astats st2)\<lparr>failed := failed (astats st2) - 1\<rparr>\<rparr>
         in add_log INFO (channel_desc ch @ '': Already archived'') st3)
      else if error_code = ''cant_archive_general'' then
        add_log ERROR (channel_desc ch @ '': Cannot archive general channel'') st1
      else if error_code = ''restricted_action'' then
        add_log ERROR (channel_desc ch @ '': Insufficient permissions'') st1
      else
        add_log ERROR (channel_desc ch @ '': Archive failed - '' @ error_code) st1)"

text \<open>The handler of every other exception (lines 255 to 257); its message is not modelled.\<close>

definition on_exception :: "channel \<Rightarrow> archive_state \<Rightarrow> archive_state" where
  "on_exception ch st =
     add_log ERROR (channel_desc ch @ '': Unexpected error'')
       (st\<lparr>astats := (astats st)\<lparr>failed := failed (astats st) + 1\<rparr>\<rparr>)"

text \<open>
  One iteration of the loop over the batch (lines 209 to 259): the state it reaches, and
  the exception that leaves it, if one does. An exception raised in the \<^verbatim>\<open>try\<close> is
  handled by one of the two handlers. An exception that line 239 raises is raised inside
  the first handler, where the second does not catch it: it leaves the iteration, before
  any counter other than \<open>processed\<close> has changed.
\<close>

definition archive_step ::
  "client \<Rightarrow> bool \<Rightarrow> channel \<Rightarrow> archive_state \<Rightarrow> py_exn option \<times> archive_state" where
  "archive_step cl dry_run ch st =
     (let st0 = st\<lparr>astats := (astats st)\<lparr>processed := processed (astats st) + 1\<rparr>\<rparr> in
      case try_body cl dry_run ch st0 of
        (None, st') \<Rightarrow> (None, st')
      | (Some (ApiError (Inl e)), st') \<Rightarrow> (Some e, st')
      | (Some (ApiError (Inr error_code)), st') \<Rightarrow> (None, on_api_error error_code ch st')
      | (Some Unexpected, st') \<Rightarrow> (None, on_exception ch st'))"

text \<open>The loop: an exception that leaves an iteration leaves the loop.\<close>

fun archive_loop ::
  "client \<Rightarrow> bool \<Rightarrow> channel list \<Rightarrow> archive_state \<Rightarrow> py_exn option \<times> archive_state" where
  "archive_loop cl dry_run [] st = (None, st)"
| "archive_loop cl dry_run (ch # chs) st =
     (case archive_step cl dry_run ch st of
        (None, st') \<Rightarrow> archive_loop cl dry_run chs st'
      | (Some e, st') \<Rightarrow> (Some e, st'))"

definition init_archive :: archive_state where
  "init_archive = \<lparr>astats = \<lparr>processed = 0, successful = 0, failed = 0, skipped = 0\<rparr>,
     calls = [], log = []\<rparr>"

text \<open>
  The whole run, with the state it ends in and the calls it made. The function returns
  the statistics, or the exception that left the loop leaves the function.
\<close>

definition archive_run :: "client \<Rightarrow> channel list \<Rightarrow> bool \<Rightarrow> py_exn option \<times> archive_state" where
  "archive_run cl chs dry_run = archive_loop cl dry_run chs init_archive"

definition archive_channels :: "client \<Rightarrow> channel list \<Rightarrow> bool \<Rightarrow> py_exn + archive_stats" where
  "archive_channels cl chs dry_run =
     (case archive_run cl chs dry_run of (None, st) \<Rightarrow> Inr (astats st) | (Some e, st) \<Rightarrow> Inl e)"

subsection \<open>Observations on the calls of a run\<close>

text \<open>
  The calls of a run over a batch, read record by record: one call of
  \<^verbatim>\<open>conversations_info\<close> for the record, then at most one call of
  \<^verbatim>\<open>conversations_archive\<close> for it.
\<close>

fun one_pass :: "channel list \<Rightarrow> event list \<Rightarrow> bool" where
  "one_pass [] es = (es = [])"
| "one_pass (ch # chs) (InfoCall i r # ArchiveCall j a # es) = (i = id' ch \<and> j = id' ch \<and> one_pass chs es)"
| "one_pass (ch # chs) (InfoCall i r # es) = (i = id' ch \<and> one_pass chs es)"
| "one_pass (ch # chs) es = False"

text \<open>A call of the mutating operation.\<close>

fun is_archive_call :: "event \<Rightarrow> bool" where
  "is_archive_call (ArchiveCall i a) = True"
| "is_archive_call (InfoCall i r) = False"

text \<open>A verify call that returned a state that is not archived.\<close>

fun verify_ok :: "event \<Rightarrow> bool" where
  "verify_ok (InfoCall i (Returns (Some cs))) = (is_archived cs = Some False)"
| "verify_ok e = False"

fun info_ids :: "event list \<Rightarrow> string option list" where
  "info_ids [] = []"
| "info_ids (InfoCall i r # es) = i # info_ids es"
| "info_ids (ArchiveCall i a # es) = info_ids es"

subsection \<open>Example inputs\<close>

definition example_client :: client where
  "example_client = \<lparr>
     conversations_info = (\<lambda>h i.
       if i = Some ''C002'' then Returns (Some \<lparr>is_archived = Some True, num_members = Some 2\<rparr>)
       else if i = Some ''C404'' then SlackApiError (Inr ''channel_not_found'')
       else if i = Some ''C500'' then OtherException
       else Returns (Some \<lparr>is_archived = Some False, num_members = Some 2\<rparr>)),
     conversations_archive = (\<lambda>h i.
       if i = Some ''C003'' then SlackApiError (Inr ''already_archived'') else Returns ())\<rparr>"

definition example_channel :: "string \<Rightarrow> string \<Rightarrow> int \<Rightarrow> channel" where
  "example_channel n i m = \<lparr>name = n, id' = Some i, members = m,
     last_activity = mk_datetime 2025 6 1 10 0 0, days_inactive = 88\<rparr>"

definition example_batch :: "channel list" where
  "example_batch = [example_channel ''a'' ''C001'' 2, example_channel ''b'' ''C002'' 2,
     example_channel ''c'' ''C003'' 1, example_channel ''d'' ''C404'' 0,
     example_channel ''e'' ''C500'' 3]"

text \<open>
  A client whose verify call for one channel raises \<^verbatim>\<open>SlackApiError('Error', {})\<close>, built
  as the test suite builds its errors, with a response that has no \<^verbatim>\<open>'error'\<close> entry.
\<close>

definition uncoded_client :: client where
  "uncoded_client = \<lparr>
     conversations_info = (\<lambda>h i.
       if i = Some ''C001'' then SlackApiError (Inl KeyError)
       else Returns (Some \<lparr>is_archived = Some False, num_members = Some 2\<rparr>)),
     conversations_archive = (\<lambda>h i. Returns ())\<rparr>"

definition uncoded_batch :: "channel list" where
  "uncoded_batch = [example_channel ''a'' ''C001'' 2, example_channel ''b'' ''C002'' 2]"

text \<open>The error code of every \<^verbatim>\<open>SlackApiError\<close> of the client can be read.\<close>

definition always_coded :: "client \<Rightarrow> bool" where
  "always_coded cl = (\<forall>h i e. conversations_info cl h i \<noteq> SlackApiError (Inl e)
     \<and> conversations_archive cl h i \<noteq> SlackApiError (Inl e))"

text \<open>A call of the mutating operation that returned.\<close>

fun mutate_ok :: "event \<Rightarrow> bool" where
  "mutate_ok (ArchiveCall i (Returns u)) = True"
| "mutate_ok e = False"

subsection \<open>What a row says, read as lines 64 to 69, 82 and 93 read it\<close>

definition row_members :: "row \<Rightarrow> py_exn + int" where
  "row_members r = bind (getitem r ''Members'') parse_members"

definition row_last_activity :: "row \<Rightarrow> py_exn + datetime" where
  "row_last_activity r =
     bind (getitem r ''Last activity'') (\<lambda>v. bind (split_first v '' -'') strptime)"

definition row_is_private :: "row \<Rightarrow> bool" where
  "row_is_private r = (str_lower (dict_get r ''Private'') = Inr ''true'')"

definition row_is_archived :: "row \<Rightarrow> bool" where
  "row_is_archived r = (str_lower (dict_get r ''Archived'') = Inr ''true'')"

definition row_is_protected :: "row \<Rightarrow> bool" where
  "row_is_protected r = (case r ''Name'' of
       Some (Some n) \<Rightarrow> lower n \<in> protected_channels
     | _ \<Rightarrow> False)"

text \<open>No cell that the filter calls a string method on is \<^verbatim>\<open>None\<close>.\<close>

definition no_missing_cells :: "row \<Rightarrow> bool" where
  "no_missing_cells r = (r ''Name'' \<noteq> Some None \<and> r ''Last activity'' \<noteq> Some None
     \<and> r ''Private'' \<noteq> Some None \<and> r ''Archived'' \<noteq> Some None)"

text \<open>Moreover the row has the columns that the filter reads by subscript.\<close>

definition fields_readable :: "row \<Rightarrow> bool" where
  "fields_readable r = (no_missing_cells r \<and> r ''Name'' \<noteq> None \<and> r ''Members'' \<noteq> None
     \<and> r ''Last activity'' \<noteq> None)"

text \<open>The states that an iteration can lead to.\<close>

definition count_row :: "load_state \<Rightarrow> load_state" where
  "count_row st = st\<lparr>stats := (stats st)\<lparr>total := total (stats st) + 1\<rparr>\<rparr>"

definition candidate :: "(nat \<Rightarrow> datetime) \<Rightarrow> row \<Rightarrow> int \<Rightarrow> datetime \<Rightarrow> load_state \<Rightarrow> channel" where
  "candidate clock r m t st = \<lparr>name = the (the (r ''Name'')), id' = dict_get r ''ID'', members = m,
     last_activity = t, days_inactive = sub_days (clock (length (channels st))) t\<rparr>"


subsection \<open>Example rows\<close>

definition mkrow :: "string \<Rightarrow> string \<Rightarrow> string \<Rightarrow> string \<Rightarrow> string \<Rightarrow> string \<Rightarrow> row" where
  "mkrow n i m l p a = [''Name'' \<mapsto> Some n, ''ID'' \<mapsto> Some i, ''Members'' \<mapsto> Some m,
     ''Last activity'' \<mapsto> Some l, ''Private'' \<mapsto> Some p, ''Archived'' \<mapsto> Some a]"

definition example_clock :: "nat \<Rightarrow> datetime" where
  "example_clock k = mk_datetime 2025 8 28 12 0 (int k)"

definition row_old :: row where
  "row_old = mkrow ''old-channel'' ''C001'' ''3'' ''Mon, 01 Jun 2025 10:00:00 -0700'' ''False'' ''False''"

definition row_empty :: row where
  "row_empty = mkrow ''empty-channel'' ''C002'' ''0'' ''Tue, 01 Apr 2025 10:00:00 -0700'' ''False'' ''False''"

definition row_private :: row where
  "row_private = mkrow ''private-channel'' ''C003'' ''2'' ''Mon, 01 Jun 2025 10:00:00 -0700'' ''True'' ''False''"

subsection \<open>The order of the output\<close>

text \<open>
  The order that the specification asks for: fewer members first, and among equal member
  counts the longer inactive first.
\<close>

definition archive_order :: "channel \<Rightarrow> channel \<Rightarrow> bool" where
  "archive_order a b = (members a < members b
     \<or> (members a = members b \<and> days_inactive b \<le> days_inactive a))"

definition row_tie_a :: row where
  "row_tie_a = mkrow ''tie-a'' ''C101'' ''1'' ''Mon, 01 Jun 2025 10:00:00 -0700'' ''False'' ''False''"

definition row_tie_b :: row where
  "row_tie_b = mkrow ''tie-b'' ''C102'' ''1'' ''Mon, 01 Jun 2025 10:00:00 -0700'' ''False'' ''False''"

definition row_tie_c :: row where
  "row_tie_c = mkrow ''tie-c'' ''C103'' ''1'' ''Thu, 01 May 2025 10:00:00 -0700'' ''False'' ''False''"

definition tie_rows :: "row list" where
  "tie_rows = [row_old, row_tie_b, row_tie_c, row_empty, row_tie_a]"

text \<open>A private row whose member count is not a number.\<close>

definition row_private_bad_members :: row where
  "row_private_bad_members = mkrow ''private-channel'' ''C003'' ''NOT_A_NUMBER''
     ''Mon, 01 Jun 2025 10:00:00 -0700'' ''True'' ''False''"

text \<open>A private row whose last activity is not a date.\<close>

definition row_private_bad_date :: row where
  "row_private_bad_date = mkrow ''private-channel'' ''C003'' ''2''
     ''INVALID DATE FORMAT'' ''True'' ''False''"

definition row_bad_date :: row where
  "row_bad_date = mkrow ''bad-date-channel'' ''C012'' ''2'' ''INVALID DATE FORMAT'' ''False'' ''False''"

definition row_bad_members :: row where
  "row_bad_members = mkrow ''bad-members'' ''C013'' ''NOT_A_NUMBER''
     ''Mon, 01 Jun 2025 10:00:00 -0700'' ''False'' ''False''"

text \<open>A row that ends after its third cell, under the header of the export.\<close>

definition row_short :: row where
  "row_short = [''Name'' \<mapsto> Some ''short-row'', ''ID'' \<mapsto> Some ''C009'', ''Members'' \<mapsto> Some ''2'',
     ''Last activity'' \<mapsto> None, ''Private'' \<mapsto> None, ''Archived'' \<mapsto> None]"

text \<open>
  The row \<^verbatim>\<open>bar,C2,2,garbage\<close> under the header of the export: its last activity is not
  a date, and it ends after its fourth cell.
\<close>

definition row_short_bad_date :: row where
  "row_short_bad_date = [''Name'' \<mapsto> Some ''bar'', ''ID'' \<mapsto> Some ''C2'', ''Members'' \<mapsto> Some ''2'',
     ''Last activity'' \<mapsto> Some ''garbage'', ''Private'' \<mapsto> None, ''Archived'' \<mapsto> None]"

text \<open>Rows on either side of the cutoff.\<close>

definition row_before_cutoff :: row where
  "row_before_cutoff = mkrow ''july-1'' ''C201'' ''2'' ''Tue, 01 Jul 2025 23:59:59 -0700'' ''False'' ''False''"

definition row_at_cutoff :: row where
  "row_at_cutoff = mkrow ''july-2'' ''C202'' ''2'' ''Wed, 02 Jul 2025 00:00:00 -0700'' ''False'' ''False''"

subsection \<open>The notify action: \<^verbatim>\<open>post_notification\<close>\<close>

text \<open>
  \<^verbatim>\<open>date.fromordinal\<close>, as the library computes it: the year, month and day of the day
  number \<open>n\<close>, counted from 1 for the first of January of year 1.
\<close>

definition ord2ymd :: "int \<Rightarrow> int \<times> int \<times> int" where
  "ord2ymd n0 =
     (let n = n0 - 1;
          n400 = n div 146097; n = n mod 146097;
          n100 = n div 36524; n = n mod 36524;
          n4 = n div 1461; n = n mod 1461;
          n1 = n div 365; n = n mod 365;
          y = n400 * 400 + 1 + n100 * 100 + n4 * 4 + n1
      in if n1 = 4 \<or> n100 = 4 then (y - 1, 12, 31)
         else
           (let m = (n + 50) div 32;
                preceding = days_before_month y m
            in if preceding > n
               then (y, m - 1, n - (preceding - days_in_month y (m - 1)) + 1)
               else (y, m, n - preceding + 1)))"

text \<open>
  \<^verbatim>\<open>t + timedelta(days=k)\<close>: the time of day is kept; a result after the year 9999 (or
  before the year 1) raises OverflowError.
\<close>

definition add_days :: "datetime \<Rightarrow> int \<Rightarrow> datetime option" where
  "add_days t k =
     (let n = toordinal t + k in
      if 0 < n \<and> n \<le> 3652059
      then (case ord2ymd n of (y, m, d) \<Rightarrow> Some (t\<lparr>year := y, month := m, day := d\<rparr>))
      else None)"

definition month_abbr :: "string list" where
  "month_abbr = [''Jan'', ''Feb'', ''Mar'', ''Apr'', ''May'', ''Jun'',
                 ''Jul'', ''Aug'', ''Sep'', ''Oct'', ''Nov'', ''Dec'']"

definition month_full :: "string list" where
  "month_full = [''January'', ''February'', ''March'', ''April'', ''May'', ''June'',
                 ''July'', ''August'', ''September'', ''October'', ''November'', ''December'']"

text \<open>\<^verbatim>\<open>%d\<close>: the day of the month in two digits.\<close>

definition two_digits :: "int \<Rightarrow> string" where
  "two_digits d = (if d < 10 then CHR ''0'' # str_int d else str_int d)"

text \<open>
  \<^verbatim>\<open>strftime\<close> for the three formats of the function, in the C locale; \<^verbatim>\<open>%Y\<close> is the
  year without padding.
\<close>

definition strftime_b_d_Y :: "datetime \<Rightarrow> string" where
  "strftime_b_d_Y t = month_abbr ! nat (month t - 1) @ '' '' @ two_digits (day t) @ '', ''
     @ str_int (year t)"

definition strftime_B_d_Y :: "datetime \<Rightarrow> string" where
  "strftime_B_d_Y t = month_full ! nat (month t - 1) @ '' '' @ two_digits (day t) @ '', ''
     @ str_int (year t)"

definition strftime_B_d :: "datetime \<Rightarrow> string" where
  "strftime_B_d t = month_full ! nat (month t - 1) @ '' '' @ two_digits (day t)"

text \<open>The message before the list of channels (lines 164 to 173).\<close>

definition preamble :: "nat \<Rightarrow> string \<Rightarrow> string" where
  "preamble n archive_date =
     ''SLACK WORKSPACE CLEANUP - 3 DAY NOTICE\<newline>\<newline>The following '' @ str_nat n
     @ '' channels will be archived on '' @ archive_date
     @ ''.\<newline>\<newline>Channels meet both criteria:\<newline>- Four (4) or fewer members\<newline>''
     @ ''- No activity between July 2 - August 2, 2025\<newline>\<newline>Channels scheduled for archival:\<newline>''"

text \<open>The line of one channel (lines 176 and 177).\<close>

definition entry_line :: "nat \<Rightarrow> channel \<Rightarrow> string" where
  "entry_line i ch = str_nat i @ ''. #'' @ name ch @ '' ('' @ str_int (members ch)
     @ '' members, last active: '' @ strftime_b_d_Y (last_activity ch) @ '')\<newline>''"

text \<open>The loop of line 175, \<^verbatim>\<open>enumerate\<close> counting from \<open>i\<close>.\<close>

fun add_entries :: "nat \<Rightarrow> channel list \<Rightarrow> string \<Rightarrow> string" where
  "add_entries i [] message = message"
| "add_entries i (ch # chs) message = add_entries (Suc i) chs (message @ entry_line i ch)"

text \<open>The end of the message (lines 182 to 187).\<close>

definition closing :: "string \<Rightarrow> string" where
  "closing opt_out_date =
     ''\<newline>TO OPT-OUT:\<newline>Contact ITOps with the channel name by '' @ opt_out_date
     @ ''\<newline>\<newline>Note: Channels will be archived (not deleted). All content remains accessible and can be unarchived if needed.\<newline>''"

text \<open>
  The message of lines 161 to 187, from the two readings of the clock; \<open>None\<close> when one of
  the two dates is out of range.
\<close>

definition compose_message :: "datetime \<Rightarrow> datetime \<Rightarrow> channel list \<Rightarrow> string option" where
  "compose_message now1 now2 chs =
     (case add_days now1 3 of None \<Rightarrow> None | Some a \<Rightarrow>
      case add_days now2 2 of None \<Rightarrow> None | Some b \<Rightarrow>
        (let archive_date = strftime_B_d_Y a;
             opt_out_date = strftime_B_d b;
             message = preamble (length chs) archive_date;
             message = add_entries 1 (take 50 chs) message;
             message = (if length chs > 50
                        then message @ ''\<newline>... and '' @ str_int (int (length chs) - 50)
                               @ '' more channels\<newline>''
                        else message)
         in Some (message @ closing opt_out_date)))"

text \<open>
  What the function does: it returns a truth value, or an exception leaves it. What
  \<^verbatim>\<open>get_team_tech_channel\<close> does is an argument: it returns the channel it found (\<open>None\<close>
  when there is none), or an exception leaves it, and then the function, which calls it
  before its \<^verbatim>\<open>try\<close>. What \<^verbatim>\<open>chat_postMessage\<close> does with a channel and a text is an
  argument too: it returns a response, given by its \<^verbatim>\<open>'ts'\<close> entry (\<open>None\<close> when it has
  none, and line 196 raises KeyError), or it raises. The only handler is the one of
  \<^verbatim>\<open>SlackApiError\<close>, and an exception raised when that handler reads the error code
  leaves the function. The messages handed to the client are returned too.
\<close>

datatype notify_result = Done bool | Propagated

datatype found = Found "string option" | FindRaised

definition post_notification ::
  "found \<Rightarrow> (string \<Rightarrow> string \<Rightarrow> string option outcome) \<Rightarrow> (nat \<Rightarrow> datetime)
     \<Rightarrow> channel list
     \<Rightarrow> notify_result \<times> (string \<times> string) list" where
  "post_notification team_tech_id chat_postMessage clock chs =
     (case team_tech_id of
        FindRaised \<Rightarrow> (Propagated, [])
      | Found None \<Rightarrow> (Done False, [])
      | Found (Some tid) \<Rightarrow>
          if tid = [] then (Done False, [])
          else (case compose_message (clock 0) (clock 1) chs of
              None \<Rightarrow> (Propagated, [])
            | Some message \<Rightarrow>
                (case chat_postMessage tid message of
                   Returns (Some ts) \<Rightarrow> (Done True, [(tid, message)])
                 | Returns None \<Rightarrow> (Propagated, [(tid, message)])
                 | SlackApiError (Inr error_code) \<Rightarrow> (Done False, [(tid, message)])
                 | SlackApiError (Inl e) \<Rightarrow> (Propagated, [(tid, message)])
                 | OtherException \<Rightarrow> (Propagated, [(tid, message)]))))"

text \<open>A batch of 60 records, and a client that accepts every message.\<close>

definition sixty_channels :: "channel list" where
  "sixty_channels = replicate 60 (example_channel ''a'' ''C001'' 2)"

definition accepting_post :: "string \<Rightarrow> string \<Rightarrow> string option outcome" where
  "accepting_post tid message = Returns (Some ''1756400000.000100'')"

section \<open>Properties\<close>

subsection \<open>The archive action\<close>

lemma add_log_calls [simp]: "calls (add_log l m st) = calls st"
  by (simp add: add_log_def)

lemma add_log_astats [simp]: "astats (add_log l m st) = astats st"
  by (simp add: add_log_def)

lemma on_api_error_calls [simp]: "calls (on_api_error c ch st) = calls st"
  by (simp add: on_api_error_def Let_def)

lemma on_exception_calls [simp]: "calls (on_exception ch st) = calls st"
  by (simp add: on_exception_def)

lemma try_body_stats:
  "try_body cl dry_run ch st = (x, st') \<Longrightarrow>
     (case x of
        None \<Rightarrow> processed (astats st') = processed (astats st) \<and> failed (astats st') = failed (astats st) \<and>
           successful (astats st') + skipped (astats st') = successful (astats st) + skipped (astats st) + 1
      | Some e \<Rightarrow> astats st' = astats st)"
  by (auto simp: try_body_def Let_def add_log_def split: outcome.splits option.splits bool.splits if_splits)

text \<open>
  What an iteration does to the counters: one more record processed, and one more in the
  sum of the other three unless an exception leaves the iteration.
\<close>

lemma archive_step_counts:
  "processed (astats (snd (archive_step cl dry_run ch st))) = processed (astats st) + 1 \<and>
   successful (astats (snd (archive_step cl dry_run ch st))) + failed (astats (snd (archive_step cl dry_run ch st)))
     + skipped (astats (snd (archive_step cl dry_run ch st)))
   = successful (astats st) + failed (astats st) + skipped (astats st)
     + (if fst (archive_step cl dry_run ch st) = None then 1 else 0)"
proof -
  obtain x st' where b: "try_body cl dry_run ch (st\<lparr>astats := (astats st)\<lparr>processed := processed (astats st) + 1\<rparr>\<rparr>) = (x, st')"
    by (cases "try_body cl dry_run ch (st\<lparr>astats := (astats st)\<lparr>processed := processed (astats st) + 1\<rparr>\<rparr>)")
  from try_body_stats [OF b] show ?thesis
    using b
    by (auto simp: archive_step_def Let_def on_api_error_def on_exception_def add_log_def
             split: option.splits raised.splits sum.splits)
qed

text \<open>An exception leaves an iteration only from line 239.\<close>

lemma archive_step_escapes:
  "fst (archive_step cl dry_run ch st) = Some e \<Longrightarrow>
     conversations_info cl (calls st) (id' ch) = SlackApiError (Inl e)
     \<or> (\<exists>h. conversations_archive cl h (id' ch) = SlackApiError (Inl e))"
  by (auto simp: archive_step_def try_body_def Let_def
           split: outcome.splits option.splits bool.splits if_splits raised.splits sum.splits)

lemma coded_step_returns: "always_coded cl \<Longrightarrow> fst (archive_step cl dry_run ch st) = None"
proof (cases "fst (archive_step cl dry_run ch st)")
  case None
  then show ?thesis by simp
next
  case (Some e)
  assume "always_coded cl"
  with archive_step_escapes [OF Some] show ?thesis by (auto simp: always_coded_def)
qed


lemma archive_loop_step:
  "archive_loop cl dry_run (ch # chs) st =
     (if fst (archive_step cl dry_run ch st) = None
      then archive_loop cl dry_run chs (snd (archive_step cl dry_run ch st))
      else archive_step cl dry_run ch st)"
  by (cases "archive_step cl dry_run ch st") (auto split: option.splits)

declare archive_loop.simps(2) [simp del]

lemma archive_loop_counts:
  "fst (archive_loop cl dry_run chs st) = None \<Longrightarrow>
   processed (astats (snd (archive_loop cl dry_run chs st))) = processed (astats st) + int (length chs) \<and>
   successful (astats (snd (archive_loop cl dry_run chs st))) + failed (astats (snd (archive_loop cl dry_run chs st)))
     + skipped (astats (snd (archive_loop cl dry_run chs st)))
   = successful (astats st) + failed (astats st) + skipped (astats st) + int (length chs)"
proof (induction chs arbitrary: st)
  case Nil
  show ?case by simp
next
  case (Cons ch chs)
  have n: "fst (archive_step cl dry_run ch st) = None"
    using Cons.prems by (cases "fst (archive_step cl dry_run ch st)") (simp_all add: archive_loop_step)
  then have l: "fst (archive_loop cl dry_run chs (snd (archive_step cl dry_run ch st))) = None"
    using Cons.prems by (simp add: archive_loop_step)
  show ?case
    using Cons.IH [OF l] archive_step_counts [of cl dry_run ch st] n
    by (simp add: archive_loop_step)
qed


lemma coded_loop_returns: "always_coded cl \<Longrightarrow> fst (archive_loop cl dry_run chs st) = None"
  by (induction chs arbitrary: st) (simp_all add: archive_loop_step coded_step_returns)

lemma archive_channels_Inr:
  "(archive_channels cl chs dry_run = Inr s)
     = (fst (archive_run cl chs dry_run) = None \<and> s = astats (snd (archive_run cl chs dry_run)))"
  by (cases "archive_run cl chs dry_run") (auto simp: archive_channels_def split: option.splits)

lemma archive_channels_Inl:
  "(archive_channels cl chs dry_run = Inl e) = (fst (archive_run cl chs dry_run) = Some e)"
  by (cases "archive_run cl chs dry_run") (auto simp: archive_channels_def split: option.splits)



text \<open>The runs over the example batch, evaluated record by record.\<close>

lemmas example_run_defs = archive_run_def example_batch_def example_client_def
  example_channel_def init_archive_def archive_loop_step archive_step_def try_body_def Let_def
  on_api_error_def on_exception_def add_log_def



lemma example_run_dry:
  "archive_channels example_client example_batch True
     = Inr \<lparr>processed = 5, successful = 2, failed = 2, skipped = 1\<rparr>"
  by (simp add: archive_channels_Inr) (simp add: example_run_defs)



lemma try_body_calls:
  "try_body cl dry_run ch st = (x, st') \<Longrightarrow>
     calls st' = calls st @ [InfoCall (id' ch) (conversations_info cl (calls st) (id' ch))]
     \<or> (\<not> dry_run \<and> (\<exists>a. calls st' = calls st @
           [InfoCall (id' ch) (conversations_info cl (calls st) (id' ch)), ArchiveCall (id' ch) a]))"
  by (auto simp: try_body_def Let_def split: outcome.splits option.splits bool.splits if_splits)

lemma archive_step_calls:
  "calls (snd (archive_step cl dry_run ch st))
     = calls st @ [InfoCall (id' ch) (conversations_info cl (calls st) (id' ch))]
   \<or> (\<not> dry_run \<and> (\<exists>a. calls (snd (archive_step cl dry_run ch st)) = calls st @
           [InfoCall (id' ch) (conversations_info cl (calls st) (id' ch)), ArchiveCall (id' ch) a]))"
proof -
  let ?st0 = "st\<lparr>astats := (astats st)\<lparr>processed := processed (astats st) + 1\<rparr>\<rparr>"
  obtain x st' where b: "try_body cl dry_run ch ?st0 = (x, st')"
    by (cases "try_body cl dry_run ch ?st0")
  have c: "calls (snd (archive_step cl dry_run ch st)) = calls st'"
    using b by (simp add: archive_step_def Let_def split: option.splits raised.splits sum.splits)
  from try_body_calls [OF b] c show ?thesis by simp
qed

lemma one_pass_info: "one_pass chs es \<Longrightarrow> one_pass (ch # chs) (InfoCall (id' ch) r # es)"
proof (cases es)
  case Nil
  then show "one_pass chs es \<Longrightarrow> ?thesis" by simp
next
  case (Cons e es')
  assume h: "one_pass chs es"
  show ?thesis
  proof (cases e)
    case (InfoCall i r')
    with Cons h show ?thesis by simp
  next
    case (ArchiveCall j a)
    with Cons h show ?thesis by (cases chs) simp_all
  qed
qed

lemma one_pass_both:
  "one_pass chs es \<Longrightarrow> one_pass (ch # chs) (InfoCall (id' ch) r # ArchiveCall (id' ch) a # es)"
  by simp

lemma archive_loop_one_pass:
  "fst (archive_loop cl dry_run chs st) = None \<Longrightarrow>
   \<exists>es. calls (snd (archive_loop cl dry_run chs st)) = calls st @ es \<and> one_pass chs es
        \<and> info_ids es = map id' chs"
proof (induction chs arbitrary: st)
  case Nil
  show ?case by simp
next
  case (Cons ch chs)
  let ?st1 = "snd (archive_step cl dry_run ch st)"
  have n: "fst (archive_step cl dry_run ch st) = None"
    using Cons.prems by (cases "fst (archive_step cl dry_run ch st)") (simp_all add: archive_loop_step)
  then have l: "fst (archive_loop cl dry_run chs ?st1) = None"
    using Cons.prems by (simp add: archive_loop_step)
  have eq: "snd (archive_loop cl dry_run (ch # chs) st) = snd (archive_loop cl dry_run chs ?st1)"
    using n by (simp add: archive_loop_step)
  obtain es where es: "calls (snd (archive_loop cl dry_run chs ?st1)) = calls ?st1 @ es"
      "one_pass chs es" "info_ids es = map id' chs"
    using Cons.IH [OF l] by blast
  from archive_step_calls [of cl dry_run ch st] show ?case
  proof (elim disjE conjE exE)
    assume "calls ?st1 = calls st @ [InfoCall (id' ch) (conversations_info cl (calls st) (id' ch))]"
    with es one_pass_info [OF es(2)] show ?thesis by (simp add: eq)
  next
    fix a
    assume "calls ?st1 = calls st @
       [InfoCall (id' ch) (conversations_info cl (calls st) (id' ch)), ArchiveCall (id' ch) a]"
    with es show ?thesis by (simp add: eq)
  qed
qed

text \<open>
  When the error code of every \<^verbatim>\<open>SlackApiError\<close> can be read, the run returns statistics
  whose \<open>processed\<close> is the length of the batch, whatever else the client answers, and its
  calls are, record by record in the order of the batch, one verify call for the record
  followed by at most one mutate call for it.
\<close>

lemma coded_run_whole_batch:
  assumes "always_coded cl"
  shows "\<exists>s. archive_channels cl chs dry_run = Inr s \<and> processed s = int (length chs)"
    and "one_pass chs (calls (snd (archive_run cl chs dry_run)))"
    and "info_ids (calls (snd (archive_run cl chs dry_run))) = map id' chs"
proof -
  have r: "fst (archive_loop cl dry_run chs init_archive) = None"
    using assms by (rule coded_loop_returns)
  show "\<exists>s. archive_channels cl chs dry_run = Inr s \<and> processed s = int (length chs)"
    using r archive_loop_counts [OF r]
    by (simp add: archive_channels_Inr archive_run_def init_archive_def)
  show "one_pass chs (calls (snd (archive_run cl chs dry_run)))"
    and "info_ids (calls (snd (archive_run cl chs dry_run))) = map id' chs"
    using archive_loop_one_pass [OF r]
    by (auto simp: archive_run_def init_archive_def)
qed

text \<open>
  C8. The batch \<open>uncoded_batch\<close> has two records, and the verify call for the first
  raises a \<^verbatim>\<open>SlackApiError\<close> whose response has no \<^verbatim>\<open>'error'\<close> entry. Line 239 raises
  KeyError inside the handler; the exception leaves the loop and the action: no statistics
  are returned, the first record is counted in \<open>processed\<close> alone, and the second record
  is never tried.
\<close>

theorem uncoded_error_escapes_loop:
  "archive_channels uncoded_client uncoded_batch False = Inl KeyError
   \<and> archive_run uncoded_client uncoded_batch False
     = (Some KeyError,
        \<lparr>astats = \<lparr>processed = 1, successful = 0, failed = 0, skipped = 0\<rparr>,
         calls = [InfoCall (Some ''C001'') (SlackApiError (Inl KeyError))],
         log = []\<rparr>)
   \<and> length uncoded_batch = 2"
  by code_simp

lemma dry_run_step_successful:
  "successful (astats (snd (archive_step cl True ch st)))
     = successful (astats st)
       + (if verify_ok (InfoCall (id' ch) (conversations_info cl (calls st) (id' ch))) then 1 else 0)"
  by (auto simp: archive_step_def try_body_def Let_def on_api_error_def on_exception_def
           split: outcome.splits option.splits bool.splits sum.splits)

lemma dry_run_step_calls:
  "calls (snd (archive_step cl True ch st))
     = calls st @ [InfoCall (id' ch) (conversations_info cl (calls st) (id' ch))]"
  using archive_step_calls [of cl True ch st] by simp

lemma dry_run_loop:
  "filter is_archive_call (calls (snd (archive_loop cl True chs st))) = filter is_archive_call (calls st)
   \<and> successful (astats (snd (archive_loop cl True chs st)))
       - int (length (filter verify_ok (calls (snd (archive_loop cl True chs st)))))
     = successful (astats st) - int (length (filter verify_ok (calls st)))"
proof (induction chs arbitrary: st)
  case Nil
  show ?case by simp
next
  case (Cons ch chs)
  show ?case
    using Cons.IH [of "snd (archive_step cl True ch st)"]
      dry_run_step_calls [of cl ch st] dry_run_step_successful [of cl ch st]
    by (simp add: archive_loop_step)
qed

text \<open>
  C4. A dry run makes no call of the mutating operation, for any batch and any client,
  whether it returns or not, and each record whose verify call returns a state that is
  not archived adds one to \<open>successful\<close>: the \<open>successful\<close> of the run, which is the one
  returned, is the number of those verify calls.
\<close>

theorem dry_run_never_mutates:
  "filter is_archive_call (calls (snd (archive_run cl chs True))) = []
   \<and> successful (astats (snd (archive_run cl chs True)))
     = int (length (filter verify_ok (calls (snd (archive_run cl chs True)))))
   \<and> (\<forall>s. archive_channels cl chs True = Inr s \<longrightarrow>
        successful s = int (length (filter verify_ok (calls (snd (archive_run cl chs True))))))
   \<and> successful (astats (snd (archive_step cl True ch st)))
     = successful (astats st)
       + (if verify_ok (InfoCall (id' ch) (conversations_info cl (calls st) (id' ch))) then 1 else 0)
   \<and> filter is_archive_call (calls (snd (archive_step cl True ch st))) = filter is_archive_call (calls st)"
proof -
  have a: "filter is_archive_call (calls (snd (archive_run cl chs True))) = []
     \<and> successful (astats (snd (archive_run cl chs True)))
       = int (length (filter verify_ok (calls (snd (archive_run cl chs True)))))"
    using dry_run_loop [of cl chs init_archive]
    by (simp add: archive_run_def init_archive_def)
  then have b: "\<forall>s. archive_channels cl chs True = Inr s \<longrightarrow>
        successful s = int (length (filter verify_ok (calls (snd (archive_run cl chs True)))))"
    by (simp add: archive_channels_Inr)
  show ?thesis
    using a b dry_run_step_successful [of cl ch st] dry_run_step_calls [of cl ch st] by simp
qed

theorem dry_run_never_mutates_witness:
  "filter is_archive_call (calls (snd (archive_run example_client example_batch True))) = []
   \<and> archive_channels example_client example_batch True
       = Inr \<lparr>processed = 5, successful = 2, failed = 2, skipped = 1\<rparr>
   \<and> length (filter verify_ok (calls (snd (archive_run example_client example_batch True)))) = 2"
proof -
  note example_run_dry
  then show ?thesis
    using dry_run_never_mutates [of example_client example_batch "hd example_batch" init_archive]
    by simp
qed

text \<open>
  C3. A record whose channel is already archived remotely, either because the verify call
  returns a state with \<open>is_archived\<close>, or because (in a live run) the mutate call raises
  the error code \<open>already_archived\<close>, adds one to \<open>skipped\<close> and leaves \<open>successful\<close> and
  \<open>failed\<close> as they were, and the loop goes on. No mutate call that returned is added for
  the record, and in the first case no mutate call is made at all.
\<close>

theorem already_archived_is_skipped:
  assumes "(conversations_info cl (calls st) (id' ch) = Returns (Some cs) \<and> is_archived cs = Some True)
     \<or> (\<not> dry_run \<and> conversations_info cl (calls st) (id' ch) = Returns (Some cs)
          \<and> is_archived cs = Some False
          \<and> conversations_archive cl (calls st @ [InfoCall (id' ch) (Returns (Some cs))]) (id' ch)
              = SlackApiError (Inr ''already_archived''))"
  shows "skipped (astats (snd (archive_step cl dry_run ch st))) = skipped (astats st) + 1
     \<and> successful (astats (snd (archive_step cl dry_run ch st))) = successful (astats st)
     \<and> failed (astats (snd (archive_step cl dry_run ch st))) = failed (astats st)
     \<and> fst (archive_step cl dry_run ch st) = None
     \<and> filter mutate_ok (calls (snd (archive_step cl dry_run ch st))) = filter mutate_ok (calls st)
     \<and> (if is_archived cs = Some True
         then calls (snd (archive_step cl dry_run ch st)) = calls st @ [InfoCall (id' ch) (Returns (Some cs))]
         else calls (snd (archive_step cl dry_run ch st)) = calls st @ [InfoCall (id' ch) (Returns (Some cs)),
                ArchiveCall (id' ch) (SlackApiError (Inr ''already_archived''))])"
  using assms
proof (elim disjE conjE)
  assume "conversations_info cl (calls st) (id' ch) = Returns (Some cs)" "is_archived cs = Some True"
  then show ?thesis
    by (simp add: archive_step_def try_body_def Let_def)
next
  assume "\<not> dry_run" "conversations_info cl (calls st) (id' ch) = Returns (Some cs)"
    "is_archived cs = Some False"
    "conversations_archive cl (calls st @ [InfoCall (id' ch) (Returns (Some cs))]) (id' ch)
       = SlackApiError (Inr ''already_archived'')"
  then show ?thesis
    by (simp add: archive_step_def try_body_def Let_def on_api_error_def)
qed

theorem already_archived_is_skipped_witness:
  "skipped (astats (snd (archive_step example_client False (example_channel ''b'' ''C002'' 2) init_archive))) = 1
   \<and> successful (astats (snd (archive_step example_client False (example_channel ''b'' ''C002'' 2) init_archive))) = 0
   \<and> failed (astats (snd (archive_step example_client False (example_channel ''b'' ''C002'' 2) init_archive))) = 0
   \<and> calls (snd (archive_step example_client False (example_channel ''b'' ''C002'' 2) init_archive))
       = [InfoCall (Some ''C002'') (Returns (Some \<lparr>is_archived = Some True, num_members = Some 2\<rparr>))]
   \<and> skipped (astats (snd (archive_step example_client False (example_channel ''c'' ''C003'' 1) init_archive))) = 1
   \<and> successful (astats (snd (archive_step example_client False (example_channel ''c'' ''C003'' 1) init_archive))) = 0
   \<and> failed (astats (snd (archive_step example_client False (example_channel ''c'' ''C003'' 1) init_archive))) = 0
   \<and> calls (snd (archive_step example_client False (example_channel ''c'' ''C003'' 1) init_archive))
       = [InfoCall (Some ''C003'') (Returns (Some \<lparr>is_archived = Some False, num_members = Some 2\<rparr>)),
          ArchiveCall (Some ''C003'') (SlackApiError (Inr ''already_archived''))]"
proof -
  let ?b = "example_channel ''b'' ''C002'' 2"
  let ?c = "example_channel ''c'' ''C003'' 1"
  let ?sb = "\<lparr>is_archived = Some True, num_members = Some 2\<rparr>"
  let ?sc = "\<lparr>is_archived = Some False, num_members = Some 2\<rparr>"
  have hb: "(conversations_info example_client (calls init_archive) (id' ?b) = Returns (Some ?sb)
        \<and> is_archived ?sb = Some True)
     \<or> (\<not> False \<and> conversations_info example_client (calls init_archive) (id' ?b) = Returns (Some ?sb)
          \<and> is_archived ?sb = Some False
          \<and> conversations_archive example_client
                (calls init_archive @ [InfoCall (id' ?b) (Returns (Some ?sb))]) (id' ?b)
              = SlackApiError (Inr ''already_archived''))"
    by (simp add: example_client_def example_channel_def init_archive_def)
  have hc: "(conversations_info example_client (calls init_archive) (id' ?c) = Returns (Some ?sc)
        \<and> is_archived ?sc = Some True)
     \<or> (\<not> False \<and> conversations_info example_client (calls init_archive) (id' ?c) = Returns (Some ?sc)
          \<and> is_archived ?sc = Some False
          \<and> conversations_archive example_client
                (calls init_archive @ [InfoCall (id' ?c) (Returns (Some ?sc))]) (id' ?c)
              = SlackApiError (Inr ''already_archived''))"
    by (simp add: example_client_def example_channel_def init_archive_def)
  show ?thesis
    using already_archived_is_skipped [OF hb] already_archived_is_skipped [OF hc]
    by (simp add: init_archive_def example_channel_def)
qed

subsection \<open>The eligibility filter\<close>

lemma py_int_error: "py_int s = Inl e \<Longrightarrow> e = ValueError"
  by (auto simp: py_int_def split: list.splits option.splits if_splits)

lemma strptime_error: "strptime s = Inl e \<Longrightarrow> e = ValueError"
  by (auto simp: strptime_def split: option.splits)

lemma row_members_error:
  "r ''Members'' \<noteq> None \<Longrightarrow> row_members r = Inl e \<Longrightarrow> e = ValueError"
  by (auto simp: row_members_def bind_def getitem_def parse_members_def
           dest: py_int_error split: option.splits if_splits)

lemma row_last_activity_error:
  "r ''Last activity'' \<noteq> None \<Longrightarrow> r ''Last activity'' \<noteq> Some None
     \<Longrightarrow> row_last_activity r = Inl e \<Longrightarrow> e = ValueError"
  by (auto simp: row_last_activity_def bind_def getitem_def split_first_def
           dest: strptime_error split: option.splits sum.splits)

lemma bind_Inl [simp]: "bind (Inl e) f = Inl e"
  by (simp add: bind_def)

lemma bind_Inr [simp]: "bind (Inr x) f = f x"
  by (simp add: bind_def)

lemma row_body_readable:
  assumes "fields_readable r"
  shows "row_body clock r st =
     (case row_members r of
        Inl e \<Rightarrow> Inl ValueError
      | Inr m \<Rightarrow>
          if row_is_private r then
            Inr (st\<lparr>stats := (stats st)\<lparr>skipped_private := skipped_private (stats st) + 1\<rparr>\<rparr>)
          else if row_is_archived r then
            Inr (st\<lparr>stats := (stats st)\<lparr>skipped_archived := skipped_archived (stats st) + 1\<rparr>\<rparr>)
          else if row_is_protected r then
            Inr (st\<lparr>stats := (stats st)\<lparr>skipped_protected := skipped_protected (stats st) + 1\<rparr>\<rparr>)
          else if 4 < m then
            Inr (st\<lparr>stats := (stats st)\<lparr>skipped_members := skipped_members (stats st) + 1\<rparr>\<rparr>)
          else
            (case row_last_activity r of
               Inl e \<Rightarrow> Inl ValueError
             | Inr t \<Rightarrow>
                 if dt_ge t july_2_2025 then
                   Inr (st\<lparr>stats := (stats st)\<lparr>skipped_active := skipped_active (stats st) + 1\<rparr>\<rparr>)
                 else Inr (st\<lparr>channels := channels st @ [candidate clock r m t st]\<rparr>)))"
proof -
  from assms obtain n l where n: "r ''Name'' = Some (Some n)" and l: "r ''Last activity'' = Some (Some l)"
    by (auto simp: fields_readable_def no_missing_cells_def)
  from assms obtain mc where mc: "r ''Members'' = Some mc"
    by (auto simp: fields_readable_def)
  from assms obtain p where p: "dict_get r ''Private'' = Some p"
    by (cases "r ''Private''") (auto simp: fields_readable_def no_missing_cells_def dict_get_def)
  from assms obtain a where a: "dict_get r ''Archived'' = Some a"
    by (cases "r ''Archived''") (auto simp: fields_readable_def no_missing_cells_def dict_get_def)
  have gn: "getitem r ''Name'' = Inr (Some n)" and gl: "getitem r ''Last activity'' = Inr (Some l)"
    by (simp_all add: getitem_def n l)
  have me: "\<And>e. row_members r = Inl e \<Longrightarrow> e = ValueError"
    using row_members_error [of r] mc by simp
  have le: "\<And>e. row_last_activity r = Inl e \<Longrightarrow> e = ValueError"
    using row_last_activity_error [of r] l by simp
  have rm: "bind (getitem r ''Members'') parse_members = row_members r"
    by (simp add: row_members_def)
  have rl: "bind (split_first (Some l) '' -'') strptime = row_last_activity r"
    by (simp add: row_last_activity_def gl)
  have body: "row_body clock r st =
     bind (row_members r) (\<lambda>members.
       if lower p = ''true'' then
         Inr (st\<lparr>stats := (stats st)\<lparr>skipped_private := skipped_private (stats st) + 1\<rparr>\<rparr>)
       else if lower a = ''true'' then
         Inr (st\<lparr>stats := (stats st)\<lparr>skipped_archived := skipped_archived (stats st) + 1\<rparr>\<rparr>)
       else if lower n \<in> protected_channels then
         Inr (st\<lparr>stats := (stats st)\<lparr>skipped_protected := skipped_protected (stats st) + 1\<rparr>\<rparr>)
       else if members > 4 then
         Inr (st\<lparr>stats := (stats st)\<lparr>skipped_members := skipped_members (stats st) + 1\<rparr>\<rparr>)
       else bind (row_last_activity r) (\<lambda>last_activity.
         if dt_ge last_activity july_2_2025 then
           Inr (st\<lparr>stats := (stats st)\<lparr>skipped_active := skipped_active (stats st) + 1\<rparr>\<rparr>)
         else Inr (st\<lparr>channels := channels st @ [candidate clock r members last_activity st]\<rparr>)))"
    unfolding row_body_def rm gn gl
    by (simp add: p a str_lower_def rl Let_def candidate_def n cong: if_cong)
  have flags: "row_is_private r = (lower p = ''true'')" "row_is_archived r = (lower a = ''true'')"
    "row_is_protected r = (lower n \<in> protected_channels)"
    by (simp_all add: row_is_private_def row_is_archived_def row_is_protected_def p a n str_lower_def)
  show ?thesis
  proof (cases "row_members r")
    case (Inl e)
    with me have "row_members r = Inl ValueError" by simp
    then show ?thesis by (simp add: body)
  next
    case (Inr m)
    show ?thesis
    proof (cases "row_last_activity r")
      case (Inl e)
      with le have "row_last_activity r = Inl ValueError" by simp
      then show ?thesis using Inr by (simp add: body flags)
    next
      case (Inr t)
      then show ?thesis using \<open>row_members r = Inr m\<close> by (simp add: body flags)
    qed
  qed
qed

lemma row_body_rel:
  "channels st = channels su \<Longrightarrow>
     rel_sum (=) (\<lambda>a b. channels a = channels b) (row_body clock r st) (row_body clock r su)"
  by (auto simp: row_body_def bind_def Let_def split: sum.splits option.splits)

lemma row_step_rel:
  assumes "channels st = channels su"
  shows "rel_sum (=) (\<lambda>a b. channels a = channels b) (row_step clock r st) (row_step clock r su)"
proof -
  let ?a = "st\<lparr>stats := (stats st)\<lparr>total := total (stats st) + 1\<rparr>\<rparr>"
  let ?b = "su\<lparr>stats := (stats su)\<lparr>total := total (stats su) + 1\<rparr>\<rparr>"
  have "channels ?a = channels ?b" using assms by simp
  from row_body_rel [OF this, of clock r] show ?thesis
    using assms
    by (cases "row_body clock r ?a"; cases "row_body clock r ?b")
       (auto simp: row_step_def Let_def split: py_exn.splits)
qed

lemma load_rows_rel:
  "channels st = channels su \<Longrightarrow>
     rel_sum (=) (\<lambda>a b. channels a = channels b) (load_rows clock rs st) (load_rows clock rs su)"
proof (induction rs arbitrary: st su)
  case Nil
  then show ?case by simp
next
  case (Cons r rs)
  from row_step_rel [OF Cons.prems, of clock r] show ?case
    by (cases "row_step clock r st"; cases "row_step clock r su") (auto intro: Cons.IH)
qed

lemma load_rows_append:
  "load_rows clock (xs @ ys) st =
     (case load_rows clock xs st of Inl e \<Rightarrow> Inl e | Inr st' \<Rightarrow> load_rows clock ys st')"
  by (induction xs arbitrary: st) (auto split: sum.splits)

lemma row_body_appends:
  "row_body clock r st = Inr st' \<Longrightarrow>
     channels st' = channels st \<or>
     (\<not> row_is_private r \<and> \<not> row_is_archived r \<and> \<not> row_is_protected r \<and>
      (\<exists>m t. row_members r = Inr m \<and> \<not> 4 < m \<and> row_last_activity r = Inr t
          \<and> \<not> dt_ge t july_2_2025 \<and> r ''Name'' \<noteq> None \<and> r ''Name'' \<noteq> Some None
          \<and> st' = st\<lparr>channels := channels st @ [candidate clock r m t st]\<rparr>))"
  by (auto simp: row_body_def bind_def Let_def row_is_private_def row_is_archived_def
        row_is_protected_def row_members_def row_last_activity_def candidate_def
        getitem_def str_lower_def split_first_def
      split: sum.splits option.splits if_splits)

lemma row_step_excluded:
  assumes "row_is_private r \<or> row_is_archived r \<or> row_is_protected r
     \<or> (\<exists>m. row_members r = Inr m \<and> 4 < m)
     \<or> (\<exists>t. row_last_activity r = Inr t \<and> dt_ge t july_2_2025)"
    and "row_step clock r st = Inr st'"
  shows "channels st' = channels st"
proof -
  let ?st1 = "st\<lparr>stats := (stats st)\<lparr>total := total (stats st) + 1\<rparr>\<rparr>"
  show ?thesis
  proof (cases "row_body clock r ?st1")
    case (Inl e)
    with assms(2) show ?thesis
      by (auto simp: row_step_def Let_def split: py_exn.splits)
  next
    case (Inr st2)
    with assms(2) have "st' = st2" by (simp add: row_step_def Let_def)
    with row_body_appends [OF Inr] assms(1) show ?thesis by auto
  qed
qed

lemma same_channels_same_output:
  assumes "rel_sum (=) (\<lambda>a b. channels a = channels b) x y"
  shows "(case x of Inl e \<Rightarrow> [] | Inr st \<Rightarrow> sort_key sort_key_of (channels st))
       = (case y of Inl e \<Rightarrow> [] | Inr st \<Rightarrow> sort_key sort_key_of (channels st))"
  using assms by (cases x; cases y) auto

text \<open>
  C1. A row that is private, archived, protected by name, has more than four members, or
  has a last activity on or after the cutoff never adds a record: the iteration for it
  leaves the list of channels as it is, whatever the other cells hold, and the list
  returned for a file with the row is the list returned for the file without it (or the
  empty list, when a cell of the row makes the pass stop).
\<close>

theorem excluded_row_never_in_output:
  assumes "row_is_private r \<or> row_is_archived r \<or> row_is_protected r
     \<or> (\<exists>m. row_members r = Inr m \<and> 4 < m)
     \<or> (\<exists>t. row_last_activity r = Inr t \<and> dt_ge t july_2_2025)"
  shows "(\<forall>st st'. row_step clock r st = Inr st' \<longrightarrow> channels st' = channels st)
     \<and> (load_channels_from_csv clock (Csv (xs @ r # ys)) = load_channels_from_csv clock (Csv (xs @ ys))
        \<or> load_channels_from_csv clock (Csv (xs @ r # ys)) = [])"
proof
  show "\<forall>st st'. row_step clock r st = Inr st' \<longrightarrow> channels st' = channels st"
    using row_step_excluded [OF assms] by blast
next
  show "load_channels_from_csv clock (Csv (xs @ r # ys)) = load_channels_from_csv clock (Csv (xs @ ys))
        \<or> load_channels_from_csv clock (Csv (xs @ r # ys)) = []"
  proof (cases "load_rows clock xs init_load")
    case (Inl e)
    then show ?thesis by (simp add: load_channels_from_csv_def load_rows_append)
  next
    case (Inr s1)
    show ?thesis
    proof (cases "row_step clock r s1")
      case (Inl e)
      with Inr show ?thesis by (simp add: load_channels_from_csv_def load_rows_append)
    next
      case s2: (Inr s2)
      have "channels s2 = channels s1" using row_step_excluded [OF assms s2] .
      from same_channels_same_output [OF load_rows_rel [OF this, of clock ys]]
      show ?thesis using Inr s2 by (simp add: load_channels_from_csv_def load_rows_append)
    qed
  qed
qed

lemma example_output:
  "map name (load_channels_from_csv example_clock (Csv [row_old, row_private, row_empty]))
     = [''empty-channel'', ''old-channel'']"
  by code_simp

theorem excluded_row_never_in_output_witness:
  "row_is_private row_private
   \<and> load_channels_from_csv example_clock (Csv [row_old, row_private, row_empty])
     = load_channels_from_csv example_clock (Csv [row_old, row_empty])
   \<and> map name (load_channels_from_csv example_clock (Csv [row_old, row_private, row_empty]))
     = [''empty-channel'', ''old-channel'']"
proof -
  have p: "row_is_private row_private" by code_simp
  then have h: "row_is_private row_private \<or> row_is_archived row_private \<or> row_is_protected row_private
     \<or> (\<exists>m. row_members row_private = Inr m \<and> 4 < m)
     \<or> (\<exists>t. row_last_activity row_private = Inr t \<and> dt_ge t july_2_2025)" by simp
  have ne: "load_channels_from_csv example_clock (Csv [row_old, row_private, row_empty]) \<noteq> []"
    using example_output by auto
  from excluded_row_never_in_output [OF h, of example_clock "[row_old]" "[row_empty]"] ne p example_output
  show ?thesis by simp
qed

lemma archive_order_key: "archive_order a b = (sort_key_of a \<le> sort_key_of b)"
  by (auto simp: archive_order_def sort_key_of_def)

lemma sort_channels_ordered: "sorted_wrt archive_order (sort_key sort_key_of cs)"
proof -
  have "sorted (map sort_key_of (sort_key sort_key_of cs))" by (rule sorted_sort_key)
  then show ?thesis by (simp add: sorted_map archive_order_key [abs_def])
qed

lemma sort_channels_stable:
  "filter (\<lambda>x. members x = m \<and> days_inactive x = d) (sort_key sort_key_of cs)
     = filter (\<lambda>x. members x = m \<and> days_inactive x = d) cs"
proof -
  have "(\<lambda>x. members x = m \<and> days_inactive x = d) = (\<lambda>x. sort_key_of x = (m, - d))"
    by (auto simp: sort_key_of_def)
  then show ?thesis by (simp add: sort_key_stable)
qed

text \<open>
  C2. The list returned is always in the order asked for, which compares any two records.
  It is a rearrangement of the records in the order in which their rows were read, and
  records that agree in member count and days of inactivity keep that order.
\<close>

theorem output_sorted_stable:
  "sorted_wrt archive_order (load_channels_from_csv clock f)
   \<and> (\<forall>a b. archive_order a b \<or> archive_order b a)
   \<and> (\<forall>rows st. f = Csv rows \<and> load_rows clock rows init_load = Inr st \<longrightarrow>
         mset (load_channels_from_csv clock f) = mset (channels st)
         \<and> (\<forall>m d. filter (\<lambda>x. members x = m \<and> days_inactive x = d) (load_channels_from_csv clock f)
                 = filter (\<lambda>x. members x = m \<and> days_inactive x = d) (channels st)))"
proof (intro conjI allI impI)
  show "sorted_wrt archive_order (load_channels_from_csv clock f)"
    by (auto simp: load_channels_from_csv_def sort_channels_ordered split: csv_file.splits sum.splits)
next
  fix a b show "archive_order a b \<or> archive_order b a"
    by (auto simp: archive_order_def)
next
  fix rows st assume h: "f = Csv rows \<and> load_rows clock rows init_load = Inr st"
  then show "mset (load_channels_from_csv clock f) = mset (channels st)"
    by (simp add: load_channels_from_csv_def)
next
  fix rows st m d assume h: "f = Csv rows \<and> load_rows clock rows init_load = Inr st"
  then show "filter (\<lambda>x. members x = m \<and> days_inactive x = d) (load_channels_from_csv clock f)
      = filter (\<lambda>x. members x = m \<and> days_inactive x = d) (channels st)"
    by (simp add: load_channels_from_csv_def sort_channels_stable)
qed

theorem output_sorted_stable_witness:
  "map name (load_channels_from_csv example_clock (Csv tie_rows))
     = [''empty-channel'', ''tie-c'', ''tie-b'', ''tie-a'', ''old-channel'']
   \<and> sorted_wrt archive_order (load_channels_from_csv example_clock (Csv tie_rows))
   \<and> (\<exists>st. load_rows example_clock tie_rows init_load = Inr st
         \<and> map name (channels st) = [''old-channel'', ''tie-b'', ''tie-c'', ''empty-channel'', ''tie-a'']
         \<and> mset (load_channels_from_csv example_clock (Csv tie_rows)) = mset (channels st))"
proof -
  have names: "map name (load_channels_from_csv example_clock (Csv tie_rows))
     = [''empty-channel'', ''tie-c'', ''tie-b'', ''tie-a'', ''old-channel'']"
    by code_simp
  have "case load_rows example_clock tie_rows init_load of
          Inl e \<Rightarrow> False
        | Inr st \<Rightarrow> map name (channels st)
            = [''old-channel'', ''tie-b'', ''tie-c'', ''empty-channel'', ''tie-a'']"
    by code_simp
  then obtain st where st: "load_rows example_clock tie_rows init_load = Inr st"
    "map name (channels st) = [''old-channel'', ''tie-b'', ''tie-c'', ''empty-channel'', ''tie-a'']"
    by (cases "load_rows example_clock tie_rows init_load") auto
  have all: "sorted_wrt archive_order (load_channels_from_csv example_clock (Csv tie_rows))
     \<and> (\<forall>rows st. Csv tie_rows = Csv rows \<and> load_rows example_clock rows init_load = Inr st \<longrightarrow>
         mset (load_channels_from_csv example_clock (Csv tie_rows)) = mset (channels st)
         \<and> (\<forall>m d. filter (\<lambda>x. members x = m \<and> days_inactive x = d)
                   (load_channels_from_csv example_clock (Csv tie_rows))
                 = filter (\<lambda>x. members x = m \<and> days_inactive x = d) (channels st)))"
    using output_sorted_stable [of example_clock "Csv tie_rows"] by simp
  then have "mset (load_channels_from_csv example_clock (Csv tie_rows)) = mset (channels st)"
    using st(1) by simp
  with all st names show ?thesis by simp
qed

lemma row_step_readable:
  assumes "fields_readable r"
  shows "row_step clock r st = Inr
     (case row_members r of
        Inl e \<Rightarrow> st\<lparr>stats := (stats st)\<lparr>total := total (stats st) + 1,
                                          parse_errors := parse_errors (stats st) + 1\<rparr>\<rparr>
      | Inr m \<Rightarrow>
          if row_is_private r then
            st\<lparr>stats := (stats st)\<lparr>total := total (stats st) + 1,
                                   skipped_private := skipped_private (stats st) + 1\<rparr>\<rparr>
          else if row_is_archived r then
            st\<lparr>stats := (stats st)\<lparr>total := total (stats st) + 1,
                                   skipped_archived := skipped_archived (stats st) + 1\<rparr>\<rparr>
          else if row_is_protected r then
            st\<lparr>stats := (stats st)\<lparr>total := total (stats st) + 1,
                                   skipped_protected := skipped_protected (stats st) + 1\<rparr>\<rparr>
          else if 4 < m then
            st\<lparr>stats := (stats st)\<lparr>total := total (stats st) + 1,
                                   skipped_members := skipped_members (stats st) + 1\<rparr>\<rparr>
          else
            (case row_last_activity r of
               Inl e \<Rightarrow> st\<lparr>stats := (stats st)\<lparr>total := total (stats st) + 1,
                                                 parse_errors := parse_errors (stats st) + 1\<rparr>\<rparr>
             | Inr t \<Rightarrow>
                 if dt_ge t july_2_2025 then
                   st\<lparr>stats := (stats st)\<lparr>total := total (stats st) + 1,
                                          skipped_active := skipped_active (stats st) + 1\<rparr>\<rparr>
                 else st\<lparr>stats := (stats st)\<lparr>total := total (stats st) + 1\<rparr>,
                         channels := channels st @ [candidate clock r m t st]\<rparr>))"
  unfolding row_step_def Let_def row_body_readable [OF assms]
  by (simp add: candidate_def split: sum.splits)

text \<open>
  C5, as the code has it. For a row whose cells can be read and whose member count is a
  number, the rules are tried in the order private, archived, protected name, more than
  four members, last activity on or after the cutoff; the first that matches adds one to
  its own counter (and the row to \<open>total\<close>) and changes nothing else. A last activity
  that is not a date is looked at only when the first four rules let the row pass, and is
  then counted as a parse error.
\<close>

theorem rules_applied_in_order:
  assumes "fields_readable r" and "row_members r = Inr m"
  shows "row_step clock r st = Inr
     (if row_is_private r then
        st\<lparr>stats := (stats st)\<lparr>total := total (stats st) + 1,
                               skipped_private := skipped_private (stats st) + 1\<rparr>\<rparr>
      else if row_is_archived r then
        st\<lparr>stats := (stats st)\<lparr>total := total (stats st) + 1,
                               skipped_archived := skipped_archived (stats st) + 1\<rparr>\<rparr>
      else if row_is_protected r then
        st\<lparr>stats := (stats st)\<lparr>total := total (stats st) + 1,
                               skipped_protected := skipped_protected (stats st) + 1\<rparr>\<rparr>
      else if 4 < m then
        st\<lparr>stats := (stats st)\<lparr>total := total (stats st) + 1,
                               skipped_members := skipped_members (stats st) + 1\<rparr>\<rparr>
      else
        (case row_last_activity r of
           Inl e \<Rightarrow> st\<lparr>stats := (stats st)\<lparr>total := total (stats st) + 1,
                                             parse_errors := parse_errors (stats st) + 1\<rparr>\<rparr>
         | Inr t \<Rightarrow>
             if dt_ge t july_2_2025 then
               st\<lparr>stats := (stats st)\<lparr>total := total (stats st) + 1,
                                      skipped_active := skipped_active (stats st) + 1\<rparr>\<rparr>
             else st\<lparr>stats := (stats st)\<lparr>total := total (stats st) + 1\<rparr>,
                     channels := channels st @ [candidate clock r m t st]\<rparr>))"
  using row_step_readable [OF assms(1), of clock st] assms(2) by simp

theorem rules_applied_in_order_witness:
  "fields_readable row_private \<and> row_members row_private = Inr 2 \<and> row_is_private row_private
   \<and> row_step example_clock row_private init_load = Inr
       (init_load\<lparr>stats := (stats init_load)\<lparr>total := total (stats init_load) + 1,
          skipped_private := skipped_private (stats init_load) + 1\<rparr>\<rparr>)"
proof -
  have a: "fields_readable row_private" by code_simp
  have b: "row_members row_private = Inr 2" by code_simp
  have c: "row_is_private row_private" by code_simp
  from rules_applied_in_order [OF a b, of example_clock init_load] a b c
  show ?thesis by simp
qed

text \<open>
  C5 as it is written fails: a private row whose member count is not a number is counted
  as a parse error, not as a private row, since the member count is converted before the
  first rule is tried.
\<close>

theorem private_row_counted_as_parse_error:
  "row_is_private row_private_bad_members
   \<and> logged_stats example_clock (Csv [row_private_bad_members])
     = Some \<lparr>total = 1, skipped_private = 0, skipped_archived = 0, skipped_protected = 0,
             skipped_members = 0, skipped_active = 0, parse_errors = 1\<rparr>"
  by code_simp

lemma row_step_readable_channels:
  assumes "fields_readable r" and "(\<exists>e. row_members r = Inl e) \<or> (\<exists>e. row_last_activity r = Inl e)"
  shows "\<exists>st'. row_step clock r st = Inr st' \<and> channels st' = channels st"
  using row_step_readable [OF assms(1), of clock st] assms(2)
  by (auto split: sum.splits)

lemma unchanged_row_dropped:
  assumes "\<And>st. \<exists>st'. row_step clock r st = Inr st' \<and> channels st' = channels st"
  shows "load_channels_from_csv clock (Csv (xs @ r # ys)) = load_channels_from_csv clock (Csv (xs @ ys))"
proof (cases "load_rows clock xs init_load")
  case (Inl e)
  then show ?thesis by (simp add: load_channels_from_csv_def load_rows_append)
next
  case (Inr s1)
  from assms [of s1] obtain s2 where s2: "row_step clock r s1 = Inr s2" "channels s2 = channels s1"
    by blast
  from same_channels_same_output [OF load_rows_rel [OF s2(2), of clock ys]]
  show ?thesis using Inr s2(1) by (simp add: load_channels_from_csv_def load_rows_append)
qed

lemma row_members_errors:
  "row_members r = Inl e \<Longrightarrow> e = ValueError \<or> e = KeyError"
  by (auto simp: row_members_def bind_def getitem_def parse_members_def
           dest: py_int_error split: option.splits if_splits)

text \<open>
  A member count that cannot be converted is a parse error of the row, whatever its other
  cells hold, missing ones included: the row is counted, nothing is appended, and the
  pass goes on.
\<close>

lemma bad_members_any_row:
  assumes "row_members r = Inl e"
  shows "row_step clock r st
     = Inr (st\<lparr>stats := (stats st)\<lparr>total := total (stats st) + 1,
                                  parse_errors := parse_errors (stats st) + 1\<rparr>\<rparr>)"
proof -
  let ?st1 = "st\<lparr>stats := (stats st)\<lparr>total := total (stats st) + 1\<rparr>\<rparr>"
  have m: "bind (getitem r ''Members'') parse_members = Inl e"
    using assms by (simp add: row_members_def)
  have "row_body clock r ?st1 = Inl KeyError \<or> row_body clock r ?st1 = Inl e"
    unfolding row_body_def m
    by (cases "getitem r ''Name''") (auto simp: getitem_def split: option.splits)
  with row_members_errors [OF assms] show ?thesis
    by (auto simp: row_step_def Let_def)
qed

text \<open>
  Where no cell that the filter reads is missing, a row whose member count or last
  activity cannot be parsed adds no record, and the pass goes on with the rows after it:
  the list returned is the one returned for the file without the row. It is counted as a
  parse error when the member count is the one that fails, or when the last activity
  fails and the row is not private, not archived, not protected and has at most four
  members.
\<close>

lemma readable_unparseable_row_skipped:
  assumes "fields_readable r"
    and "(\<exists>e. row_members r = Inl e) \<or> (\<exists>e. row_last_activity r = Inl e)"
  shows "(\<exists>st'. row_step clock r st = Inr st' \<and> channels st' = channels st
            \<and> load_rows clock (r # ys) st = load_rows clock ys st'
            \<and> ((\<exists>e. row_members r = Inl e)
                 \<or> (\<not> row_is_private r \<and> \<not> row_is_archived r \<and> \<not> row_is_protected r
                     \<and> (\<exists>m. row_members r = Inr m \<and> m \<le> 4))
                \<longrightarrow> stats st' = (stats st)\<lparr>total := total (stats st) + 1,
                                              parse_errors := parse_errors (stats st) + 1\<rparr>))
     \<and> load_channels_from_csv clock (Csv (xs @ r # ys)) = load_channels_from_csv clock (Csv (xs @ ys))"
proof
  from row_step_readable_channels [OF assms, of clock st]
  obtain st' where st': "row_step clock r st = Inr st'" "channels st' = channels st" by blast
  have "(\<exists>e. row_members r = Inl e)
          \<or> (\<not> row_is_private r \<and> \<not> row_is_archived r \<and> \<not> row_is_protected r
              \<and> (\<exists>m. row_members r = Inr m \<and> m \<le> 4))
        \<longrightarrow> stats st' = (stats st)\<lparr>total := total (stats st) + 1,
                                      parse_errors := parse_errors (stats st) + 1\<rparr>"
    using row_step_readable [OF assms(1), of clock st] assms(2) st'(1)
    by (auto split: sum.splits)
  with st' show "\<exists>st'. row_step clock r st = Inr st' \<and> channels st' = channels st
            \<and> load_rows clock (r # ys) st = load_rows clock ys st'
            \<and> ((\<exists>e. row_members r = Inl e)
                 \<or> (\<not> row_is_private r \<and> \<not> row_is_archived r \<and> \<not> row_is_protected r
                     \<and> (\<exists>m. row_members r = Inr m \<and> m \<le> 4))
                \<longrightarrow> stats st' = (stats st)\<lparr>total := total (stats st) + 1,
                                              parse_errors := parse_errors (stats st) + 1\<rparr>)"
    by auto
next
  show "load_channels_from_csv clock (Csv (xs @ r # ys)) = load_channels_from_csv clock (Csv (xs @ ys))"
    by (rule unchanged_row_dropped) (rule row_step_readable_channels [OF assms])
qed

lemma malformed_rows_output:
  "map name (load_channels_from_csv example_clock (Csv [row_old, row_bad_date, row_bad_members, row_empty]))
     = [''empty-channel'', ''old-channel'']
   \<and> logged_stats example_clock (Csv [row_old, row_bad_date, row_bad_members, row_empty])
     = Some \<lparr>total = 4, skipped_private = 0, skipped_archived = 0, skipped_protected = 0,
             skipped_members = 0, skipped_active = 0, parse_errors = 2\<rparr>"
  by code_simp

text \<open>
  The last activity is parsed only after the first four rules have let the row pass: a
  private row whose last activity is not a date is counted as a private row.
\<close>

lemma private_bad_date_counted_as_private:
  "row_last_activity row_private_bad_date = Inl ValueError
   \<and> logged_stats example_clock (Csv [row_private_bad_date])
     = Some \<lparr>total = 1, skipped_private = 1, skipped_archived = 0, skipped_protected = 0,
             skipped_members = 0, skipped_active = 0, parse_errors = 0\<rparr>"
  by code_simp

text \<open>
  C7. The row \<^verbatim>\<open>bar,C2,2,garbage\<close> has a member count and a last activity that is not a
  date, and ends before the cells of \<^verbatim>\<open>Private\<close> and \<^verbatim>\<open>Archived\<close>, which the reader fills
  with \<^verbatim>\<open>None\<close>. Line 67 calls \<^verbatim>\<open>lower\<close> on \<^verbatim>\<open>None\<close>; the AttributeError is not one of the
  exceptions of the handler of the row, so it leaves the loop over the rows: the list
  returned is empty, although the rows before and after it are eligible, and the row is
  not counted as a parse error, since no statistics are logged.
\<close>

theorem short_row_aborts_pass:
  "row_members row_short_bad_date = Inr 2
   \<and> row_last_activity row_short_bad_date = Inl ValueError
   \<and> row_step example_clock row_short_bad_date init_load = Inl AttributeError
   \<and> load_channels_from_csv example_clock (Csv [row_old, row_short_bad_date, row_empty]) = []
   \<and> logged_stats example_clock (Csv [row_old, row_short_bad_date, row_empty]) = None
   \<and> map name (load_channels_from_csv example_clock (Csv [row_old, row_empty]))
      = [''empty-channel'', ''old-channel'']"
  by code_simp

lemma row_body_no_attribute_error:
  "no_missing_cells r \<Longrightarrow> row_body clock r st \<noteq> Inl AttributeError"
  by (auto simp: row_body_def bind_def getitem_def dict_get_def str_lower_def split_first_def
        parse_members_def no_missing_cells_def Let_def
      dest: py_int_error strptime_error
      split: sum.splits option.splits if_splits)

lemma row_step_no_abort:
  assumes "no_missing_cells r"
  shows "\<exists>st'. row_step clock r st = Inr st'"
proof -
  let ?st1 = "st\<lparr>stats := (stats st)\<lparr>total := total (stats st) + 1\<rparr>\<rparr>"
  from row_body_no_attribute_error [OF assms, of clock ?st1] show ?thesis
    by (cases "row_body clock r ?st1") (auto simp: row_step_def Let_def split: py_exn.splits)
qed

lemma row_step_grows:
  assumes "row_step clock r st = Inr st'"
  shows "set (channels st) \<subseteq> set (channels st')"
proof -
  let ?st1 = "st\<lparr>stats := (stats st)\<lparr>total := total (stats st) + 1\<rparr>\<rparr>"
  show ?thesis
  proof (cases "row_body clock r ?st1")
    case (Inl e)
    with assms show ?thesis by (auto simp: row_step_def Let_def split: py_exn.splits)
  next
    case (Inr st2)
    with assms have "st' = st2" by (simp add: row_step_def Let_def)
    with row_body_appends [OF Inr] show ?thesis by auto
  qed
qed

lemma load_rows_grows:
  "load_rows clock rs st = Inr st' \<Longrightarrow> set (channels st) \<subseteq> set (channels st')"
proof (induction rs arbitrary: st)
  case Nil
  then show ?case by simp
next
  case (Cons r rs)
  then obtain s1 where s1: "row_step clock r st = Inr s1" "load_rows clock rs s1 = Inr st'"
    by (auto split: sum.splits)
  from row_step_grows [OF s1(1)] Cons.IH [OF s1(2)] show ?case by blast
qed

lemma load_rows_no_abort:
  "\<forall>x\<in>set rs. no_missing_cells x \<Longrightarrow> \<exists>st'. load_rows clock rs st = Inr st'"
proof (induction rs arbitrary: st)
  case Nil
  show ?case by simp
next
  case (Cons r rs)
  then obtain s1 where "row_step clock r st = Inr s1"
    using row_step_no_abort [of r clock st] by auto
  with Cons show ?case by simp
qed

lemma dt_lt_not_ge: "dt_lt a b = (\<not> dt_ge a b)"
  by (simp add: dt_lt_def dt_ge_def not_le)

text \<open>
  The comparison with the cutoff, where no cell that the filter reads is missing in the
  file: a row that the first four rules let pass has a record in the list returned when
  its last activity is strictly before 2025-07-02 00:00:00, and adds nothing (it is
  counted as active) when its last activity is at that instant or after it.
\<close>

lemma cutoff_without_missing_cells:
  assumes "\<forall>x\<in>set (xs @ r # ys). no_missing_cells x"
    and "r ''Name'' \<noteq> None"
    and "\<not> row_is_private r" and "\<not> row_is_archived r" and "\<not> row_is_protected r"
    and "row_members r = Inr m" and "m \<le> 4"
    and "row_last_activity r = Inr t"
  shows "row_step clock r st = Inr
       (if dt_lt t july_2_2025
        then st\<lparr>stats := (stats st)\<lparr>total := total (stats st) + 1\<rparr>,
                channels := channels st @ [candidate clock r m t st]\<rparr>
        else st\<lparr>stats := (stats st)\<lparr>total := total (stats st) + 1,
                                     skipped_active := skipped_active (stats st) + 1\<rparr>\<rparr>)
     \<and> (if dt_lt t july_2_2025
        then \<exists>c\<in>set (load_channels_from_csv clock (Csv (xs @ r # ys))).
               name c = the (the (r ''Name'')) \<and> id' c = dict_get r ''ID''
               \<and> members c = m \<and> last_activity c = t
        else load_channels_from_csv clock (Csv (xs @ r # ys))
               = load_channels_from_csv clock (Csv (xs @ ys)))"
proof -
  have nm: "no_missing_cells r" using assms(1) by simp
  have "r ''Members'' \<noteq> None"
    using assms(6) by (auto simp: row_members_def getitem_def bind_def split: option.splits)
  moreover have "r ''Last activity'' \<noteq> None"
    using assms(8) by (auto simp: row_last_activity_def getitem_def bind_def split: option.splits)
  ultimately have fr: "fields_readable r"
    using nm assms(2) by (simp add: fields_readable_def)
  have step: "\<And>st. row_step clock r st = Inr
       (if dt_lt t july_2_2025
        then st\<lparr>stats := (stats st)\<lparr>total := total (stats st) + 1\<rparr>,
                channels := channels st @ [candidate clock r m t st]\<rparr>
        else st\<lparr>stats := (stats st)\<lparr>total := total (stats st) + 1,
                                     skipped_active := skipped_active (stats st) + 1\<rparr>\<rparr>)"
    using row_step_readable [OF fr, of clock] assms(3-8) by (simp add: dt_lt_not_ge)
  have whole: "if dt_lt t july_2_2025
        then \<exists>c\<in>set (load_channels_from_csv clock (Csv (xs @ r # ys))).
               name c = the (the (r ''Name'')) \<and> id' c = dict_get r ''ID''
               \<and> members c = m \<and> last_activity c = t
        else load_channels_from_csv clock (Csv (xs @ r # ys))
               = load_channels_from_csv clock (Csv (xs @ ys))"
  proof (cases "dt_lt t july_2_2025")
    case True
    from load_rows_no_abort [of xs clock init_load] assms(1)
    obtain s1 where s1: "load_rows clock xs init_load = Inr s1" by auto
    let ?c = "candidate clock r m t s1"
    let ?s2 = "s1\<lparr>stats := (stats s1)\<lparr>total := total (stats s1) + 1\<rparr>,
                   channels := channels s1 @ [?c]\<rparr>"
    have s2: "row_step clock r s1 = Inr ?s2" using step [of s1] True by simp
    from load_rows_no_abort [of ys clock ?s2] assms(1)
    obtain s3 where s3: "load_rows clock ys ?s2 = Inr s3" by auto
    have "?c \<in> set (channels s3)" using load_rows_grows [OF s3] by auto
    moreover have "load_channels_from_csv clock (Csv (xs @ r # ys)) = sort_key sort_key_of (channels s3)"
      using s1 s2 s3 by (simp add: load_channels_from_csv_def load_rows_append)
    ultimately have "?c \<in> set (load_channels_from_csv clock (Csv (xs @ r # ys)))" by simp
    moreover have "name ?c = the (the (r ''Name'')) \<and> id' ?c = dict_get r ''ID''
               \<and> members ?c = m \<and> last_activity ?c = t"
      by (simp add: candidate_def)
    ultimately show ?thesis using True by auto
  next
    case False
    have "\<And>st. \<exists>st'. row_step clock r st = Inr st' \<and> channels st' = channels st"
      using step False by simp
    from unchanged_row_dropped [OF this] False show ?thesis by simp
  qed
  from step [of st] whole show ?thesis by blast
qed

text \<open>
  C6. The row \<^verbatim>\<open>july-1\<close> was last active at 2025-07-01 23:59:59, one second before the
  cutoff, and passes every rule: alone in the file, it is the list returned. Followed by
  the row \<^verbatim>\<open>short-row,C009,2\<close>, which ends before the cells that lines 67 and 68 call
  \<^verbatim>\<open>lower\<close> on, it is not in the list returned, which is empty: the AttributeError of the
  short row leaves the loop over the rows.
\<close>

theorem eligible_row_lost_after_short_row:
  "row_members row_before_cutoff = Inr 2
   \<and> row_last_activity row_before_cutoff = Inr (mk_datetime 2025 7 1 23 59 59)
   \<and> dt_lt (mk_datetime 2025 7 1 23 59 59) july_2_2025
   \<and> map name (load_channels_from_csv example_clock (Csv [row_before_cutoff])) = [''july-1'']
   \<and> load_channels_from_csv example_clock (Csv [row_before_cutoff, row_short]) = []"
  by code_simp

lemma cutoff_rows_readable:
  "\<forall>x\<in>set ([row_old] @ row_before_cutoff # [row_empty]). no_missing_cells x"
  "\<forall>x\<in>set ([row_old] @ row_at_cutoff # [row_empty]). no_missing_cells x"
  by code_simp+

lemma cutoff_rows_pass:
  "row_before_cutoff ''Name'' \<noteq> None \<and> \<not> row_is_private row_before_cutoff
   \<and> \<not> row_is_archived row_before_cutoff \<and> \<not> row_is_protected row_before_cutoff
   \<and> row_members row_before_cutoff = Inr 2
   \<and> row_last_activity row_before_cutoff = Inr (mk_datetime 2025 7 1 23 59 59)"
  "row_at_cutoff ''Name'' \<noteq> None \<and> \<not> row_is_private row_at_cutoff
   \<and> \<not> row_is_archived row_at_cutoff \<and> \<not> row_is_protected row_at_cutoff
   \<and> row_members row_at_cutoff = Inr 2
   \<and> row_last_activity row_at_cutoff = Inr (mk_datetime 2025 7 2 0 0 0)"
  by code_simp+

lemma cutoff_compare:
  "dt_lt (mk_datetime 2025 7 1 23 59 59) july_2_2025" "\<not> dt_lt (mk_datetime 2025 7 2 0 0 0) july_2_2025"
  by code_simp+

lemma cutoff_rows_example:
  "(\<exists>c\<in>set (load_channels_from_csv example_clock (Csv [row_old, row_before_cutoff, row_empty])).
       name c = ''july-1'' \<and> members c = 2 \<and> last_activity c = mk_datetime 2025 7 1 23 59 59)
   \<and> load_channels_from_csv example_clock (Csv [row_old, row_at_cutoff, row_empty])
      = load_channels_from_csv example_clock (Csv [row_old, row_empty])"
proof -
  have n: "the (the (row_before_cutoff ''Name'')) = ''july-1''" by code_simp
  have a: "\<exists>c\<in>set (load_channels_from_csv example_clock (Csv ([row_old] @ row_before_cutoff # [row_empty]))).
       name c = the (the (row_before_cutoff ''Name'')) \<and> id' c = dict_get row_before_cutoff ''ID''
       \<and> members c = 2 \<and> last_activity c = mk_datetime 2025 7 1 23 59 59"
    using cutoff_without_missing_cells [OF cutoff_rows_readable(1), of 2 "mk_datetime 2025 7 1 23 59 59"
        example_clock init_load] cutoff_rows_pass(1) cutoff_compare(1)
    by simp
  have b: "load_channels_from_csv example_clock (Csv ([row_old] @ row_at_cutoff # [row_empty]))
      = load_channels_from_csv example_clock (Csv ([row_old] @ [row_empty]))"
    using cutoff_without_missing_cells [OF cutoff_rows_readable(2), of 2 "mk_datetime 2025 7 2 0 0 0"
        example_clock init_load] cutoff_rows_pass(2) cutoff_compare(2)
    by simp
  from a b n show ?thesis by auto
qed

subsection \<open>The notify action\<close>

lemma upt_0_Suc: "[0..<Suc n] = 0 # map Suc [0..<n]"
  by (simp add: upt_conv_Cons map_Suc_upt del: upt_Suc)

lemma add_entries_eq:
  "add_entries i chs message
     = message @ concat (map (\<lambda>k. entry_line (i + k) (chs ! k)) [0..<length chs])"
proof (induction chs arbitrary: i message)
  case Nil
  show ?case by simp
next
  case (Cons ch chs)
  have "map (\<lambda>k. entry_line (i + k) ((ch # chs) ! k)) [0..<length (ch # chs)]
      = entry_line i ch # map (\<lambda>k. entry_line (Suc i + k) (chs ! k)) [0..<length chs]"
    by (simp add: upt_0_Suc comp_def del: upt_Suc)
  then show ?case using Cons.IH [of "Suc i" "message @ entry_line i ch"] by simp
qed

lemma str_int_nat: "str_int (int n) = str_nat n"
  by (simp add: str_int_def)

lemma compose_message_eq:
  "compose_message now1 now2 chs =
     (case add_days now1 3 of None \<Rightarrow> None | Some a \<Rightarrow>
      case add_days now2 2 of None \<Rightarrow> None | Some b \<Rightarrow>
        Some (preamble (length chs) (strftime_B_d_Y a)
          @ concat (map (\<lambda>k. str_nat (k + 1) @ ''. #'' @ name (chs ! k) @ '' (''
                @ str_int (members (chs ! k)) @ '' members, last active: ''
                @ strftime_b_d_Y (last_activity (chs ! k)) @ '')\<newline>'')
              [0..<min 50 (length chs)])
          @ (if 50 < length chs
             then ''\<newline>... and '' @ str_nat (length chs - 50) @ '' more channels\<newline>''
             else [])
          @ closing (strftime_B_d b)))"
proof -
  have entries: "add_entries 1 (take 50 chs) message
      = message @ concat (map (\<lambda>k. str_nat (k + 1) @ ''. #'' @ name (chs ! k) @ '' (''
                @ str_int (members (chs ! k)) @ '' members, last active: ''
                @ strftime_b_d_Y (last_activity (chs ! k)) @ '')\<newline>'')
              [0..<min 50 (length chs)])" for message
  proof -
    have "map (\<lambda>k. entry_line (1 + k) (take 50 chs ! k)) [0..<length (take 50 chs)]
        = map (\<lambda>k. entry_line (1 + k) (chs ! k)) [0..<min 50 (length chs)]"
      by (rule map_cong) (simp_all add: min.commute)
    then show ?thesis
      unfolding add_entries_eq by (simp add: entry_line_def)
  qed
  have more: "50 < length chs \<Longrightarrow> str_int (int (length chs) - 50) = str_nat (length chs - 50)"
    using str_int_nat [of "length chs - 50"] by (simp add: of_nat_diff)
  show ?thesis
    unfolding compose_message_def Let_def entries
    by (simp add: more split: option.splits)
qed

lemma post_notification_message:
  "tid \<noteq> [] \<Longrightarrow> snd (post_notification (Found (Some tid)) chat_postMessage clock chs)
     = (case compose_message (clock 0) (clock 1) chs of
          None \<Rightarrow> [] | Some message \<Rightarrow> [(tid, message)])"
  by (simp add: post_notification_def split: option.splits outcome.splits sum.splits)

text \<open>
  C9. The message that the notify action composes and hands to the client lists the first
  50 channels of the batch, or all of them when there are at most 50, each on a line with
  its number from 1, its name, its member count and the date of its last activity; a
  batch of more than 50 has then the line that says how many more there are, and a
  smaller batch has nothing between the list and the closing.
\<close>

theorem notification_lists_first_50:
  "compose_message now1 now2 chs =
     (case add_days now1 3 of None \<Rightarrow> None | Some a \<Rightarrow>
      case add_days now2 2 of None \<Rightarrow> None | Some b \<Rightarrow>
        Some (preamble (length chs) (strftime_B_d_Y a)
          @ concat (map (\<lambda>k. str_nat (k + 1) @ ''. #'' @ name (chs ! k) @ '' (''
                @ str_int (members (chs ! k)) @ '' members, last active: ''
                @ strftime_b_d_Y (last_activity (chs ! k)) @ '')\<newline>'')
              [0..<min 50 (length chs)])
          @ (if 50 < length chs
             then ''\<newline>... and '' @ str_nat (length chs - 50) @ '' more channels\<newline>''
             else [])
          @ closing (strftime_B_d b)))
   \<and> (tid \<noteq> [] \<longrightarrow>
        snd (post_notification (Found (Some tid)) chat_postMessage clock chs)
          = (case compose_message (clock 0) (clock 1) chs of
               None \<Rightarrow> [] | Some message \<Rightarrow> [(tid, message)]))"
  using compose_message_eq [of now1 now2 chs] post_notification_message [of tid chat_postMessage clock chs]
  by blast

theorem notification_lists_first_50_witness:
  "post_notification (Found (Some ''C777'')) accepting_post example_clock sixty_channels
     = (Done True, [(''C777'',
          preamble 60 ''August 31, 2025''
          @ concat (map (\<lambda>k. str_nat (k + 1) @ ''. #a (2 members, last active: Jun 01, 2025)\<newline>'')
              [0..<50])
          @ ''\<newline>... and 10 more channels\<newline>''
          @ closing ''August 30'')])"
proof -
  let ?line = "\<lambda>k. str_nat (k + 1) @ ''. #a (2 members, last active: Jun 01, 2025)\<newline>''"
  let ?m = "preamble 60 ''August 31, 2025'' @ concat (map ?line [0..<50])
          @ ''\<newline>... and 10 more channels\<newline>'' @ closing ''August 30''"
  have a: "add_days (example_clock 0) 3 = Some (mk_datetime 2025 8 31 12 0 0)" by code_simp
  have b: "add_days (example_clock 1) 2 = Some (mk_datetime 2025 8 30 12 0 1)" by code_simp
  have fa: "strftime_B_d_Y (mk_datetime 2025 8 31 12 0 0) = ''August 31, 2025''" by code_simp
  have fb: "strftime_B_d (mk_datetime 2025 8 30 12 0 1) = ''August 30''" by code_simp
  have len: "length sixty_channels = 60" by (simp add: sixty_channels_def)
  have ten: "str_nat 10 = ''10''" by code_simp
  have ch: "name (example_channel ''a'' ''C001'' 2) = ''a''
     \<and> str_int (members (example_channel ''a'' ''C001'' 2)) = ''2''
     \<and> strftime_b_d_Y (last_activity (example_channel ''a'' ''C001'' 2)) = ''Jun 01, 2025''"
    by code_simp
  have entries: "map (\<lambda>k. str_nat (k + 1) @ ''. #'' @ name (sixty_channels ! k) @ '' (''
                @ str_int (members (sixty_channels ! k)) @ '' members, last active: ''
                @ strftime_b_d_Y (last_activity (sixty_channels ! k)) @ '')\<newline>'')
              [0..<50] = map ?line [0..<50]"
    by (rule map_cong) (simp_all add: sixty_channels_def ch)
  note t = notification_lists_first_50 [of "example_clock 0" "example_clock 1" sixty_channels
        "''C777''" accepting_post example_clock]
  have mn: "min 50 (60::nat) = 50" and df: "(60::nat) - 50 = 10" and lt: "((50::nat) < 60) = True"
    by simp_all
  have "compose_message (example_clock 0) (example_clock 1) sixty_channels
     = Some (preamble 60 ''August 31, 2025'' @ concat (map ?line [0..<50])
          @ (''\<newline>... and '' @ ''10'' @ '' more channels\<newline>'') @ closing ''August 30'')"
    unfolding t [THEN conjunct1] a b option.case fa fb len mn df lt if_True ten entries
    by (rule refl)
  then have c: "compose_message (example_clock 0) (example_clock 1) sixty_channels = Some ?m"
    by simp
  have d: "snd (post_notification (Found (Some ''C777'')) accepting_post example_clock sixty_channels)
     = [(''C777'', ?m)]"
    using t [THEN conjunct2] unfolding c by simp
  have e: "fst (post_notification (Found (Some ''C777'')) accepting_post example_clock sixty_channels) = Done True"
    unfolding post_notification_def c by (simp add: accepting_post_def)
  from d e show ?thesis by (simp add: prod_eq_iff)
qed

end
